theory Spec2Isabelle
  imports Complex_Main "HOL-Library.AList" "HOL-Library.Char_ord" "HOL-Library.List_Lexorder"
    "HOL-Library.Product_Lexorder" "HOL-Library.Multiset"
begin

section \<open>The transaction ledger and costing engine of the inventory server\<close>

text \<open>
  The development embeds the third server of \<^verbatim>\<open>backend.js\<close> (the one with the
  append-only transaction directory): the helpers \<^verbatim>\<open>writeTransaction\<close>,
  \<^verbatim>\<open>loadPurchaseBatches\<close>, \<^verbatim>\<open>computeCOGS_FIFO\<close>, \<^verbatim>\<open>computeCOGS_Avg\<close> and the
  handlers of \<^verbatim>\<open>POST /api/purchase\<close>, \<^verbatim>\<open>POST /api/payables/pay\<close> and
  \<^verbatim>\<open>POST /api/sale\<close>.

  Conventions of the embedding.
  \<^item> A JavaScript number is a rational (\<^typ>\<open>rat\<close>) and arithmetic is exact, where
    the code computes in IEEE doubles. The two agree on integers within
    \<^verbatim>\<open>Number.MAX_SAFE_INTEGER\<close>; a theorem about the value of a sum, a difference, a
    product or a quotient says so among its assumptions (\<open>exact_numbers\<close>,
    \<open>exact_lots\<close>). The one place where the source can produce a non-finite number (a
    division by a zero total in \<^verbatim>\<open>computeCOGS_Avg\<close>) is written out;
    \<^verbatim>\<open>JSON.stringify\<close> stores such a number as \<^verbatim>\<open>null\<close>, which is \<open>None\<close> here.
  \<^item> A request body field is an \<open>option\<close>: \<open>None\<close> is an absent field. Numeric
    fields hold numbers and identifiers hold strings. A string is the list of the bytes
    of its UTF-8 encoding.
  \<^item> A stored document is a map from its keys, and \<^verbatim>\<open>obj[key]\<close> is the lookup in
    that map. JavaScript also finds the members a plain object inherits from
    \<^verbatim>\<open>Object.prototype\<close>; a theorem about a handler that looks up an identifier of
    the request assumes that no identifier is the name of such a member
    (\<open>ordinary_keys\<close>).
  \<^item> \<^verbatim>\<open>Date.now()\<close> and \<^verbatim>\<open>uuidv4()\<close> are read from an environment record, one
    field per call, in the order of the calls.
  \<^item> The transaction directory is an association list from file names to parsed
    transactions, a new file last; \<^verbatim>\<open>fs.readdir\<close> lists the names sorted; every
    file parses, file operations do not fail, and \<^verbatim>\<open>lockfile.lock\<close> succeeds.
  \<^item> A thrown exception and an early \<^verbatim>\<open>return res.status(...)\<close> are values of
    \<open>response\<close>; every handler returns its response and the state it leaves behind.
\<close>

subsection \<open>Ledger entries\<close>

record purchase_tx =
  p_id :: string
  p_productId :: string
  p_warehouseId :: string
  p_supplierId :: string
  p_quantity :: rat
  p_unitCost :: rat
  p_totalCost :: rat
  p_reference :: "string option"
  p_timestamp :: nat
  p_remaining :: "rat option"

record sale_tx =
  s_id :: string
  s_productId :: string
  s_warehouseId :: string
  s_quantity :: rat
  s_unitPrice :: rat
  s_totalRevenue :: rat
  s_cogs :: "rat option"
  s_timestamp :: nat

datatype tx = PURCHASE purchase_tx | SALE sale_tx

type_synonym directory = "(string \<times> tx) list"

datatype exn = Insufficient_stock_for_FIFO | Insufficient_stock_for_AVG | TypeError | ENOENT

subsection \<open>Costing helpers\<close>

text \<open>
  \<^verbatim>\<open>fs.readdir\<close> of \<^verbatim>\<open>fs-extra\<close> lists the files of the directory sorted by
  name (the listing is sorted before it is handed to the caller).
  \<^verbatim>\<open>loadPurchaseBatches\<close> reads every file in that order, keeps the objects with
  \<^verbatim>\<open>type === 'PURCHASE'\<close> of the product and warehouse (\<open>collect_batches\<close>), then
  \<^verbatim>\<open>batches.sort((a,b) => a.timestamp - b.timestamp)\<close>, a stable sort.
\<close>

definition readdir :: "directory \<Rightarrow> directory" where
  "readdir dir = sort_key fst dir"

fun collect_batches :: "directory \<Rightarrow> string \<Rightarrow> string \<Rightarrow> purchase_tx list" where
  "collect_batches [] productId warehouseId = []"
| "collect_batches ((f, PURCHASE obj) # files) productId warehouseId =
     (if p_productId obj = productId \<and> p_warehouseId obj = warehouseId
      then obj # collect_batches files productId warehouseId
      else collect_batches files productId warehouseId)"
| "collect_batches ((f, SALE obj) # files) productId warehouseId =
     collect_batches files productId warehouseId"

definition loadPurchaseBatches :: "directory \<Rightarrow> string \<Rightarrow> string \<Rightarrow> purchase_tx list" where
  "loadPurchaseBatches dir productId warehouseId =
     sort_key p_timestamp (collect_batches (readdir dir) productId warehouseId)"

text \<open>\<^verbatim>\<open>(b.remaining !== undefined) ? b.remaining : b.quantity\<close>\<close>

definition available :: "purchase_tx \<Rightarrow> rat" where
  "available b = (case p_remaining b of Some r \<Rightarrow> r | None \<Rightarrow> p_quantity b)"

text \<open>
  The loop of \<^verbatim>\<open>computeCOGS_FIFO\<close> over the batches; the result is the pair of the
  loop variables \<^verbatim>\<open>remaining\<close> and \<^verbatim>\<open>cogs\<close> when the loop is left.
\<close>

fun fifo_loop :: "purchase_tx list \<Rightarrow> rat \<Rightarrow> rat \<Rightarrow> rat \<times> rat" where
  "fifo_loop [] remaining cogs = (remaining, cogs)"
| "fifo_loop (b # batches) remaining cogs =
     (if available b \<le> 0 then fifo_loop batches remaining cogs
      else let take = min (available b) remaining;
               cogs' = cogs + take * p_unitCost b;
               remaining' = remaining - take
           in if remaining' \<le> 0 then (remaining', cogs')
              else fifo_loop batches remaining' cogs')"

definition computeCOGS_FIFO :: "directory \<Rightarrow> string \<Rightarrow> string \<Rightarrow> rat \<Rightarrow> exn + rat" where
  "computeCOGS_FIFO dir productId warehouseId qty =
     (case fifo_loop (loadPurchaseBatches dir productId warehouseId) qty 0 of
        (remaining, cogs) \<Rightarrow>
          if remaining > 0 then Inl Insufficient_stock_for_FIFO else Inr cogs)"

text \<open>
  The loop of \<^verbatim>\<open>computeCOGS_Avg\<close> accumulates \<^verbatim>\<open>totalQty\<close> and \<^verbatim>\<open>totalCost\<close>.
  With \<^verbatim>\<open>totalQty = 0\<close> the quotient \<^verbatim>\<open>totalCost / totalQty\<close> is \<^verbatim>\<open>NaN\<close> or an
  infinity in JavaScript, and so is its product with \<^verbatim>\<open>qty\<close>: the result is \<open>None\<close>.
\<close>

fun avg_loop :: "purchase_tx list \<Rightarrow> rat \<Rightarrow> rat \<Rightarrow> rat \<times> rat" where
  "avg_loop [] totalQty totalCost = (totalQty, totalCost)"
| "avg_loop (b # batches) totalQty totalCost =
     avg_loop batches (totalQty + available b) (totalCost + available b * p_unitCost b)"

definition computeCOGS_Avg :: "directory \<Rightarrow> string \<Rightarrow> string \<Rightarrow> rat \<Rightarrow> exn + rat option" where
  "computeCOGS_Avg dir productId warehouseId qty =
     (case avg_loop (loadPurchaseBatches dir productId warehouseId) 0 0 of
        (totalQty, totalCost) \<Rightarrow>
          if totalQty < qty then Inl Insufficient_stock_for_AVG
          else if totalQty = 0 then Inr None
          else Inr (Some (totalCost / totalQty * qty)))"

subsection \<open>Transaction files\<close>

text \<open>
  \<^verbatim>\<open>writeTransaction\<close> names the file \<^verbatim>\<open>${Date.now()}_${uuidv4()}.json\<close>: the
  decimal digits of the clock reading, an underscore, the UUID, the extension.
  \<^verbatim>\<open>atomicWriteJson\<close> replaces the content of a file or creates the file.
\<close>

definition digit :: "nat \<Rightarrow> char" where
  "digit d = ''0123456789'' ! d"

fun decimal :: "nat \<Rightarrow> string" where
  "decimal n = (if n < 10 then [digit n] else decimal (n div 10) @ [digit (n mod 10)])"

declare decimal.simps [simp del]

definition fname :: "nat \<Rightarrow> string \<Rightarrow> string" where
  "fname now uuid = decimal now @ ''_'' @ uuid @ ''.json''"

definition atomicWriteJson :: "string \<Rightarrow> tx \<Rightarrow> directory \<Rightarrow> directory" where
  "atomicWriteJson filePath obj dir = AList.update filePath obj dir"

text \<open>
  The environment of one request: the values its calls of \<^verbatim>\<open>uuidv4()\<close> and
  \<^verbatim>\<open>Date.now()\<close> return. A purchase and a sale call \<^verbatim>\<open>uuidv4()\<close> for the
  transaction id, \<^verbatim>\<open>Date.now()\<close> for its timestamp, and then both again inside
  \<^verbatim>\<open>writeTransaction\<close>; a payment makes the first two calls only.
\<close>

record env =
  tx_uuid :: string
  tx_now :: nat
  file_now :: nat
  file_uuid :: string

definition writeTransaction :: "env \<Rightarrow> tx \<Rightarrow> directory \<Rightarrow> directory" where
  "writeTransaction e t dir = atomicWriteJson (fname (file_now e) (file_uuid e)) t dir"

subsection \<open>Stored documents, requests and responses\<close>

record invoice =
  inv_id :: string
  inv_amount :: rat
  inv_reference :: "string option"
  inv_timestamp :: nat

record payment =
  pay_id :: string
  pay_amount :: rat
  pay_reference :: "string option"
  pay_timestamp :: nat

record payable =
  amount :: rat
  invoices :: "invoice list"
  payments :: "payment list option"

text \<open>
  \<open>products\<close> holds the keys of \<^verbatim>\<open>products.json\<close> (the handlers below only test
  \<^verbatim>\<open>products[productId]\<close>); \<open>balances\<close> is the nested object of
  \<^verbatim>\<open>balances.json\<close>; \<open>payables\<close> is \<^verbatim>\<open>payables.json\<close>; \<open>transactions\<close> is the
  transaction directory.
\<close>

record state =
  products :: "string set"
  balances :: "string \<rightharpoonup> (string \<rightharpoonup> rat)"
  payables :: "string \<rightharpoonup> payable"
  transactions :: directory

record purchase_req =
  pr_productId :: "string option"
  pr_warehouseId :: "string option"
  pr_supplierId :: "string option"
  pr_quantity :: "rat option"
  pr_unitCost :: "rat option"
  pr_reference :: "string option"

record pay_req =
  py_supplierId :: "string option"
  py_amount :: "rat option"
  py_reference :: "string option"

record sale_req =
  sr_productId :: "string option"
  sr_warehouseId :: "string option"
  sr_quantity :: "rat option"
  sr_unitPrice :: "rat option"
  sr_costingMethod :: "string option"

datatype failure =
  Missing_fields
  | Invalid_product
  | No_payable
  | Insufficient_stock rat
  | Exception exn

text \<open>
  \<open>Ok\<close> is \<^verbatim>\<open>res.json({ ok:true })\<close>, \<open>Ok_tx t\<close> is \<^verbatim>\<open>res.json({ ok:true, tx })\<close>,
  \<open>Status c f\<close> is \<^verbatim>\<open>res.status(c).json({ error: ... })\<close>; \<open>Insufficient_stock a\<close>
  carries the \<^verbatim>\<open>available\<close> field of that response.
\<close>

datatype response = Ok | Ok_tx tx | Status nat failure

text \<open>
  Truthiness of a body field: \<^verbatim>\<open>!x\<close> holds for an absent field, for the empty string
  and for the number zero. \<^verbatim>\<open>reference||null\<close> stores \<^verbatim>\<open>null\<close> for a falsy reference.
\<close>

definition falsy_str :: "string option \<Rightarrow> bool" where
  "falsy_str x = (case x of None \<Rightarrow> True | Some v \<Rightarrow> v = [])"

definition falsy_num :: "rat option \<Rightarrow> bool" where
  "falsy_num x = (case x of None \<Rightarrow> True | Some v \<Rightarrow> v = 0)"

definition or_null :: "string option \<Rightarrow> string option" where
  "or_null x = (if falsy_str x then None else x)"

text \<open>The destructuring default \<^verbatim>\<open>warehouseId='default'\<close> applies to an absent field only.\<close>

definition warehouse_or_default :: "string option \<Rightarrow> string" where
  "warehouse_or_default w = (case w of None \<Rightarrow> ''default'' | Some v \<Rightarrow> v)"

text \<open>
  \<^verbatim>\<open>((balances[productId]||{})[warehouseId]) || 0\<close>, which is also the value of
  \<^verbatim>\<open>balances[productId][warehouseId] || 0\<close> once \<^verbatim>\<open>balances[productId]\<close> exists.
\<close>

definition lookup_balance :: "(string \<rightharpoonup> (string \<rightharpoonup> rat)) \<Rightarrow> string \<Rightarrow> string \<Rightarrow> rat" where
  "lookup_balance bal productId warehouseId =
     (case bal productId of
        None \<Rightarrow> 0
      | Some row \<Rightarrow> (case row warehouseId of None \<Rightarrow> 0 | Some v \<Rightarrow> v))"

subsection \<open>\<^verbatim>\<open>POST /api/purchase\<close>\<close>

definition purchase :: "env \<Rightarrow> purchase_req \<Rightarrow> state \<Rightarrow> response \<times> state" where
  "purchase e req s =
     (if falsy_str (pr_productId req) \<or> falsy_str (pr_supplierId req)
         \<or> falsy_num (pr_quantity req) \<or> falsy_num (pr_unitCost req)
      then (Status 400 Missing_fields, s)
      else
        let productId = the (pr_productId req);
            warehouseId = warehouse_or_default (pr_warehouseId req);
            supplierId = the (pr_supplierId req);
            quantity = the (pr_quantity req);
            unitCost = the (pr_unitCost req)
        in if productId \<notin> products s then (Status 400 Invalid_product, s)
           else
             let row = (case balances s productId of None \<Rightarrow> Map.empty | Some r \<Rightarrow> r);
                 row' = row(warehouseId \<mapsto> lookup_balance (balances s) productId warehouseId + quantity);
                 s1 = s\<lparr>balances := (balances s)(productId \<mapsto> row')\<rparr>;
                 t = \<lparr>p_id = tx_uuid e, p_productId = productId, p_warehouseId = warehouseId,
                      p_supplierId = supplierId, p_quantity = quantity, p_unitCost = unitCost,
                      p_totalCost = quantity * unitCost, p_reference = or_null (pr_reference req),
                      p_timestamp = tx_now e, p_remaining = Some quantity\<rparr>;
                 s2 = s1\<lparr>transactions := writeTransaction e (PURCHASE t) (transactions s1)\<rparr>;
                 pb = (case payables s2 supplierId of
                         None \<Rightarrow> \<lparr>amount = 0, invoices = [], payments = None\<rparr>
                       | Some p \<Rightarrow> p);
                 pb' = pb\<lparr>amount := amount pb + quantity * unitCost,
                         invoices := invoices pb @
                           [\<lparr>inv_id = p_id t, inv_amount = p_totalCost t,
                             inv_reference = p_reference t, inv_timestamp = p_timestamp t\<rparr>]\<rparr>;
                 s3 = s2\<lparr>payables := (payables s2)(supplierId \<mapsto> pb')\<rparr>
             in (Ok_tx (PURCHASE t), s3))"

subsection \<open>\<^verbatim>\<open>POST /api/payables/pay\<close>\<close>

definition pay :: "env \<Rightarrow> pay_req \<Rightarrow> state \<Rightarrow> response \<times> state" where
  "pay e req s =
     (if falsy_str (py_supplierId req) \<or> falsy_num (py_amount req)
      then (Status 400 Missing_fields, s)
      else
        let supplierId = the (py_supplierId req);
            amt = the (py_amount req)
        in case payables s supplierId of
             None \<Rightarrow> (Status 400 No_payable, s)
           | Some pb \<Rightarrow>
               let a = amount pb - amt;
                   a' = (if a < 0 then 0 else a);
                   history = (case payments pb of None \<Rightarrow> [] | Some ps \<Rightarrow> ps);
                   pb' = pb\<lparr>amount := a',
                           payments := Some (history @
                             [\<lparr>pay_id = tx_uuid e, pay_amount = amt,
                               pay_reference = or_null (py_reference req),
                               pay_timestamp = tx_now e\<rparr>])\<rparr>
               in (Ok, s\<lparr>payables := (payables s)(supplierId \<mapsto> pb')\<rparr>))"

subsection \<open>\<^verbatim>\<open>POST /api/sale\<close>\<close>

text \<open>
  \<^verbatim>\<open>(costingMethod||'FIFO').toUpperCase() === 'FIFO'\<close>, with the default
  \<^verbatim>\<open>costingMethod='FIFO'\<close> for an absent field. \<open>toUpperCase\<close> maps the ASCII
  letters and the two other characters whose upper case can be part of \<open>FIFO\<close>: the
  dotless i (U+0131, bytes C4 B1), whose upper case is \<open>I\<close>, and the ligature fi
  (U+FB01, bytes EF AC 81), whose upper case is \<open>FI\<close>. Every other character with a
  non-ASCII encoding is left as it is: its upper case is not made of the letters F, I
  and O alone (the ligatures ff and ffi give \<open>FF\<close> and \<open>FFI\<close>), so that the
  comparison with \<open>FIFO\<close> is that of JavaScript.
\<close>

definition toUpperCase_char :: "char \<Rightarrow> char" where
  "toUpperCase_char c =
     (case map_of (zip ''abcdefghijklmnopqrstuvwxyz'' ''ABCDEFGHIJKLMNOPQRSTUVWXYZ'') c of
        None \<Rightarrow> c
      | Some u \<Rightarrow> u)"

fun toUpperCase :: "string \<Rightarrow> string" where
  "toUpperCase [] = []"
| "toUpperCase (c # cs) =
     (if c = CHR 0xC4 \<and> take 1 cs = [CHR 0xB1]
      then CHR ''I'' # toUpperCase (drop 1 cs)
      else if c = CHR 0xEF \<and> take 2 cs = [CHR 0xAC, CHR 0x81]
      then CHR ''F'' # CHR ''I'' # toUpperCase (drop 2 cs)
      else toUpperCase_char c # toUpperCase cs)"

definition is_FIFO :: "string option \<Rightarrow> bool" where
  "is_FIFO costingMethod =
     (toUpperCase (if falsy_str costingMethod then ''FIFO'' else the costingMethod)
        = ''FIFO'')"

text \<open>
  The handler runs in three stretches, separated by the points where it awaits the
  store. First it validates the body, reads \<^verbatim>\<open>balances.json\<close> and checks the
  availability; what it keeps in its local variables is a \<open>pending_sale\<close>
  (\<open>ps_balances\<close> is the object \<^verbatim>\<open>getBalances()\<close> returned). Then it computes the
  cost of goods sold from the transaction directory. Then it writes the SALE
  transaction, stores the balances object with the one entry changed and, for FIFO,
  rewrites the \<^verbatim>\<open>remaining\<close> of purchase files.
\<close>

record pending_sale =
  ps_balances :: "string \<rightharpoonup> (string \<rightharpoonup> rat)"
  ps_avail :: rat
  ps_productId :: string
  ps_warehouseId :: string
  ps_quantity :: rat
  ps_unitPrice :: rat
  ps_fifo :: bool

definition sale_check :: "sale_req \<Rightarrow> state \<Rightarrow> response + pending_sale" where
  "sale_check req s =
     (if falsy_str (sr_productId req) \<or> falsy_num (sr_quantity req)
         \<or> falsy_num (sr_unitPrice req)
      then Inl (Status 400 Missing_fields)
      else
        let productId = the (sr_productId req);
            warehouseId = warehouse_or_default (sr_warehouseId req);
            quantity = the (sr_quantity req);
            avail = lookup_balance (balances s) productId warehouseId
        in if avail < quantity then Inl (Status 400 (Insufficient_stock avail))
           else Inr \<lparr>ps_balances = balances s, ps_avail = avail, ps_productId = productId,
                     ps_warehouseId = warehouseId, ps_quantity = quantity,
                     ps_unitPrice = the (sr_unitPrice req),
                     ps_fifo = is_FIFO (sr_costingMethod req)\<rparr>)"

definition sale_cost :: "pending_sale \<Rightarrow> state \<Rightarrow> exn + rat option" where
  "sale_cost p s =
     (if ps_fifo p
      then (case computeCOGS_FIFO (transactions s) (ps_productId p) (ps_warehouseId p) (ps_quantity p) of
              Inl x \<Rightarrow> Inl x
            | Inr cogs \<Rightarrow> Inr (Some cogs))
      else computeCOGS_Avg (transactions s) (ps_productId p) (ps_warehouseId p) (ps_quantity p))"

text \<open>
  The loop that reduces \<^verbatim>\<open>remaining\<close> in the purchase files, over the sorted file
  names; each file is read when its turn comes and written back when units are taken
  from it. Reading a file that is not there throws (\<open>None\<close>); the handler passes the
  names of the directory it has just listed, so that every name is found.
\<close>

fun consume_loop ::
  "string \<Rightarrow> string \<Rightarrow> string list \<Rightarrow> rat \<Rightarrow> directory \<Rightarrow> directory option" where
  "consume_loop productId warehouseId [] remainingToConsume dir = Some dir"
| "consume_loop productId warehouseId (f # files) remainingToConsume dir =
     (case map_of dir f of
        None \<Rightarrow> None
      | Some (SALE obj) \<Rightarrow> consume_loop productId warehouseId files remainingToConsume dir
      | Some (PURCHASE obj) \<Rightarrow>
          if p_productId obj = productId \<and> p_warehouseId obj = warehouseId
          then
            (if available obj \<le> 0
             then consume_loop productId warehouseId files remainingToConsume dir
             else
               let take = min (available obj) remainingToConsume;
                   obj' = obj\<lparr>p_remaining := Some (available obj - take)\<rparr>;
                   remainingToConsume' = remainingToConsume - take;
                   dir' = atomicWriteJson f (PURCHASE obj') dir
               in if remainingToConsume' = 0 then Some dir'
                  else consume_loop productId warehouseId files remainingToConsume' dir')
          else consume_loop productId warehouseId files remainingToConsume dir)"

definition sale_commit :: "env \<Rightarrow> pending_sale \<Rightarrow> rat option \<Rightarrow> state \<Rightarrow> response \<times> state" where
  "sale_commit e p cogs s =
     (let t = \<lparr>s_id = tx_uuid e, s_productId = ps_productId p,
               s_warehouseId = ps_warehouseId p, s_quantity = ps_quantity p,
               s_unitPrice = ps_unitPrice p,
               s_totalRevenue = ps_quantity p * ps_unitPrice p, s_cogs = cogs,
               s_timestamp = tx_now e\<rparr>;
          s1 = s\<lparr>transactions := writeTransaction e (SALE t) (transactions s)\<rparr>
      in case ps_balances p (ps_productId p) of
           None \<Rightarrow> (Status 500 (Exception TypeError), s1)
         | Some row \<Rightarrow>
             let row' = row(ps_warehouseId p \<mapsto> ps_avail p - ps_quantity p);
                 s2 = s1\<lparr>balances := (ps_balances p)(ps_productId p \<mapsto> row')\<rparr>
             in if ps_fifo p
                then (case consume_loop (ps_productId p) (ps_warehouseId p)
                             (sort (map fst (transactions s2))) (ps_quantity p)
                             (transactions s2) of
                        None \<Rightarrow> (Status 500 (Exception ENOENT), s2)
                      | Some dir' \<Rightarrow> (Ok_tx (SALE t), s2\<lparr>transactions := dir'\<rparr>))
                else (Ok_tx (SALE t), s2))"

definition sale :: "env \<Rightarrow> sale_req \<Rightarrow> state \<Rightarrow> response \<times> state" where
  "sale e req s =
     (case sale_check req s of
        Inl r \<Rightarrow> (r, s)
      | Inr p \<Rightarrow>
          (case sale_cost p s of
             Inl x \<Rightarrow> (Status 500 (Exception x), s)
           | Inr cogs \<Rightarrow> sale_commit e p cogs s))"

subsection \<open>Sequences of requests\<close>

text \<open>
  Requests are served one after the other. \<open>Products P\<close> stands for the product
  routes (create, update, delete), which change \<^verbatim>\<open>products.json\<close> and nothing else.
\<close>

datatype request =
  Purchase env purchase_req
  | Sale env sale_req
  | Pay env pay_req
  | Products "string set"

fun handle :: "request \<Rightarrow> state \<Rightarrow> response \<times> state" where
  "handle (Purchase e req) s = purchase e req s"
| "handle (Sale e req) s = sale e req s"
| "handle (Pay e req) s = pay e req s"
| "handle (Products P) s = (Ok, s\<lparr>products := P\<rparr>)"

fun run :: "request list \<Rightarrow> state \<Rightarrow> state" where
  "run [] s = s"
| "run (r # rs) s = run rs (snd (handle r s))"

text \<open>The store after start-up: every document is \<^verbatim>\<open>{}\<close>, the directory is empty.\<close>

definition init :: state where
  "init = \<lparr>products = {}, balances = Map.empty, payables = Map.empty, transactions = []\<rparr>"

text \<open>
  Two conditions on a sequence of requests. \<open>fresh_names\<close>: the file name each purchase
  or sale would write is not yet in the directory (what \<^verbatim>\<open>uuidv4()\<close> is for).
  \<open>positive_quantities\<close>: a quantity field that is present is greater than zero.
\<close>

fun request_env :: "request \<Rightarrow> env option" where
  "request_env (Purchase e req) = Some e"
| "request_env (Sale e req) = Some e"
| "request_env (Pay e req) = None"
| "request_env (Products P) = None"

fun fresh_names :: "request list \<Rightarrow> state \<Rightarrow> bool" where
  "fresh_names [] s = True"
| "fresh_names (r # rs) s =
     ((case request_env r of
         None \<Rightarrow> True
       | Some e \<Rightarrow> fname (file_now e) (file_uuid e) \<notin> set (map fst (transactions s)))
      \<and> fresh_names rs (snd (handle r s)))"

fun request_quantity :: "request \<Rightarrow> rat option" where
  "request_quantity (Purchase e req) = pr_quantity req"
| "request_quantity (Sale e req) = sr_quantity req"
| "request_quantity (Pay e req) = None"
| "request_quantity (Products P) = None"

definition positive_quantities :: "request list \<Rightarrow> bool" where
  "positive_quantities rs =
     list_all (\<lambda>r. case request_quantity r of None \<Rightarrow> True | Some q \<Rightarrow> 0 < q) rs"

text \<open>
  The balance the specification derives from the ledger: the purchase quantities of the
  pair minus its sale quantities, over a full scan of the directory.
\<close>

fun ledger_replay :: "directory \<Rightarrow> string \<Rightarrow> string \<Rightarrow> rat" where
  "ledger_replay [] productId warehouseId = 0"
| "ledger_replay ((f, PURCHASE t) # dir) productId warehouseId =
     (if p_productId t = productId \<and> p_warehouseId t = warehouseId then p_quantity t else 0)
       + ledger_replay dir productId warehouseId"
| "ledger_replay ((f, SALE t) # dir) productId warehouseId =
     ledger_replay dir productId warehouseId
       - (if s_productId t = productId \<and> s_warehouseId t = warehouseId then s_quantity t else 0)"

text \<open>The total \<^verbatim>\<open>remaining\<close>-or-\<^verbatim>\<open>quantity\<close> of the purchase lots of a pair.\<close>

definition lots_available :: "directory \<Rightarrow> string \<Rightarrow> string \<Rightarrow> rat" where
  "lots_available dir productId warehouseId =
     sum_list (map available (collect_batches dir productId warehouseId))"

subsection \<open>The scenario of the specification\<close>

text \<open>
  Product \<open>p1\<close> in the default warehouse: a purchase of 10 units at cost 2 (lot A), a
  purchase of 5 units at cost 4 (lot B), then a sale of 12 units.
\<close>

definition purchase_A :: request where
  "purchase_A = Purchase
     \<lparr>tx_uuid = ''id-A'', tx_now = 1700000000000, file_now = 1700000000001, file_uuid = ''3f1c''\<rparr>
     \<lparr>pr_productId = Some ''p1'', pr_warehouseId = None, pr_supplierId = Some ''s1'',
      pr_quantity = Some 10, pr_unitCost = Some 2, pr_reference = None\<rparr>"

definition purchase_B :: request where
  "purchase_B = Purchase
     \<lparr>tx_uuid = ''id-B'', tx_now = 1700000000005, file_now = 1700000000006, file_uuid = ''9e07''\<rparr>
     \<lparr>pr_productId = Some ''p1'', pr_warehouseId = None, pr_supplierId = Some ''s1'',
      pr_quantity = Some 5, pr_unitCost = Some 4, pr_reference = None\<rparr>"

definition sale_env :: env where
  "sale_env = \<lparr>tx_uuid = ''id-S'', tx_now = 1700000000010, file_now = 1700000000011,
               file_uuid = ''c2d4''\<rparr>"

definition sale_12 :: "string option \<Rightarrow> sale_req" where
  "sale_12 method = \<lparr>sr_productId = Some ''p1'', sr_warehouseId = None,
       sr_quantity = Some 12, sr_unitPrice = Some 5, sr_costingMethod = method\<rparr>"

definition stocked :: state where
  "stocked = run [Products {''p1''}, purchase_A, purchase_B] init"

definition stocking :: "request list" where
  "stocking = [Products {''p1''}, purchase_A, purchase_B]"

subsection \<open>The costing rules in the words of the specification\<close>

text \<open>
  Section 4.4 of the specification, FIFO: load all PURCHASE entries of the pair, sorted
  by creation order ascending; walk them in order; at each take
  \<open>min (remaining-or-quantity) stillNeeded\<close> units at the entry's unit cost, add to the
  cost, subtract from the need; stop when the need is zero. The operation fails when the
  total available quantity is less than the requested one. Weighted average: the total
  available quantity and the total cost (available times unit cost) of the entries of the
  pair give the average unit cost, and the cost of \<open>N\<close> units is \<open>N\<close> times that.

  These definitions do not use the functions of the code. \<open>spec_purchases\<close> selects
  the PURCHASE entries of the pair, each with its file name. The order of
  \<open>spec_entries\<close> is by the entry's timestamp, and by file name among the entries of
  one timestamp.
\<close>

definition remaining_or_quantity :: "purchase_tx \<Rightarrow> rat" where
  "remaining_or_quantity e =
     (if p_remaining e = None then p_quantity e else the (p_remaining e))"

definition spec_purchases ::
  "directory \<Rightarrow> string \<Rightarrow> string \<Rightarrow> (string \<times> purchase_tx) list" where
  "spec_purchases dir productId warehouseId =
     [(f, e). (f, PURCHASE e) \<leftarrow> dir,
              p_productId e = productId \<and> p_warehouseId e = warehouseId]"

definition spec_entries :: "directory \<Rightarrow> string \<Rightarrow> string \<Rightarrow> purchase_tx list" where
  "spec_entries dir productId warehouseId =
     map snd (sort_key (\<lambda>(f, e). (p_timestamp e, f))
                (spec_purchases dir productId warehouseId))"

definition spec_total_quantity :: "directory \<Rightarrow> string \<Rightarrow> string \<Rightarrow> rat" where
  "spec_total_quantity dir productId warehouseId =
     (\<Sum>(f, e) \<leftarrow> spec_purchases dir productId warehouseId. remaining_or_quantity e)"

definition spec_total_cost :: "directory \<Rightarrow> string \<Rightarrow> string \<Rightarrow> rat" where
  "spec_total_cost dir productId warehouseId =
     (\<Sum>(f, e) \<leftarrow> spec_purchases dir productId warehouseId.
        remaining_or_quantity e * p_unitCost e)"

fun spec_walk :: "purchase_tx list \<Rightarrow> rat \<Rightarrow> rat \<Rightarrow> rat" where
  "spec_walk [] stillNeeded cost = cost"
| "spec_walk (e # entries) stillNeeded cost =
     (if stillNeeded = 0 then cost
      else let take = min (remaining_or_quantity e) stillNeeded
           in spec_walk entries (stillNeeded - take) (cost + take * p_unitCost e))"

definition spec_fifo :: "directory \<Rightarrow> string \<Rightarrow> string \<Rightarrow> rat \<Rightarrow> exn + rat" where
  "spec_fifo dir productId warehouseId n =
     (if spec_total_quantity dir productId warehouseId < n
      then Inl Insufficient_stock_for_FIFO
      else Inr (spec_walk (spec_entries dir productId warehouseId) n 0))"

subsection \<open>Where the embedding is exact\<close>

text \<open>
  The handlers compute with IEEE doubles. Sums, differences and products of integers
  are exact in doubles as long as every value stays within
  \<^verbatim>\<open>Number.MAX_SAFE_INTEGER\<close>, and a quotient is exact when it is such an integer; the
  rational arithmetic of the embedding is that of the code there. \<open>exact_lots\<close>: the
  lots hold whole, non-negative numbers of units at whole unit costs, and their totals
  are within the safe range. \<open>exact_numbers\<close>: every number of every request is whole,
  and the quantities and money amounts of all requests together are within the safe
  range, which bounds every balance, lot and payable the handlers compute from them.
\<close>

definition MAX_SAFE_INTEGER :: rat where
  "MAX_SAFE_INTEGER = 9007199254740991"

definition isInteger :: "rat \<Rightarrow> bool" where
  "isInteger x = (of_int \<lfloor>x\<rfloor> = x)"

definition exact_lots :: "purchase_tx list \<Rightarrow> bool" where
  "exact_lots entries =
     (list_all (\<lambda>e. isInteger (remaining_or_quantity e) \<and> 0 \<le> remaining_or_quantity e
                    \<and> isInteger (p_unitCost e)) entries
      \<and> (\<Sum>e \<leftarrow> entries. remaining_or_quantity e) \<le> MAX_SAFE_INTEGER
      \<and> (\<Sum>e \<leftarrow> entries. \<bar>remaining_or_quantity e * p_unitCost e\<bar>) \<le> MAX_SAFE_INTEGER)"

definition magnitude :: "rat option \<Rightarrow> rat" where
  "magnitude x = (case x of None \<Rightarrow> 0 | Some v \<Rightarrow> \<bar>v\<bar>)"

fun request_numbers :: "request \<Rightarrow> rat option list" where
  "request_numbers (Purchase e req) = [pr_quantity req, pr_unitCost req]"
| "request_numbers (Sale e req) = [sr_quantity req, sr_unitPrice req]"
| "request_numbers (Pay e req) = [py_amount req]"
| "request_numbers (Products P) = []"

fun request_volume :: "request \<Rightarrow> rat" where
  "request_volume (Purchase e req) =
     magnitude (pr_quantity req) + magnitude (pr_quantity req) * magnitude (pr_unitCost req)"
| "request_volume (Sale e req) =
     magnitude (sr_quantity req) + magnitude (sr_quantity req) * magnitude (sr_unitPrice req)"
| "request_volume (Pay e req) = magnitude (py_amount req)"
| "request_volume (Products P) = 0"

definition exact_numbers :: "request list \<Rightarrow> bool" where
  "exact_numbers rs =
     (list_all (\<lambda>r. list_all (\<lambda>x. case x of None \<Rightarrow> True | Some v \<Rightarrow> isInteger v)
                       (request_numbers r)) rs
      \<and> (\<Sum>r \<leftarrow> rs. request_volume r) \<le> MAX_SAFE_INTEGER)"

text \<open>
  The documents are plain objects, and \<^verbatim>\<open>obj[key]\<close> is a map lookup only for a key
  that does not name a member of \<^verbatim>\<open>Object.prototype\<close>: for such a name JavaScript
  finds the inherited member, and a handler that assigns through it changes the
  prototype for every later request of the process. \<open>ordinary_keys\<close>: no request of
  the sequence uses such a name as product, warehouse or supplier identifier.
\<close>

definition object_prototype_members :: "string list" where
  "object_prototype_members =
     [''constructor'', ''__defineGetter__'', ''__defineSetter__'', ''hasOwnProperty'',
      ''__lookupGetter__'', ''__lookupSetter__'', ''isPrototypeOf'',
      ''propertyIsEnumerable'', ''toString'', ''valueOf'', ''__proto__'',
      ''toLocaleString'']"

definition ordinary_key :: "string \<Rightarrow> bool" where
  "ordinary_key k = (k \<notin> set object_prototype_members)"

definition present :: "'a option \<Rightarrow> 'a list" where
  "present x = (case x of None \<Rightarrow> [] | Some v \<Rightarrow> [v])"

fun request_keys :: "request \<Rightarrow> string list" where
  "request_keys (Purchase e req) =
     present (pr_productId req) @ [warehouse_or_default (pr_warehouseId req)]
       @ present (pr_supplierId req)"
| "request_keys (Sale e req) =
     present (sr_productId req) @ [warehouse_or_default (sr_warehouseId req)]"
| "request_keys (Pay e req) = present (py_supplierId req)"
| "request_keys (Products P) = []"

definition ordinary_keys :: "request list \<Rightarrow> bool" where
  "ordinary_keys rs = list_all (\<lambda>r. list_all ordinary_key (request_keys r)) rs"

text \<open>The directory after the two purchases.\<close>

definition stocked_lots :: directory where
  "stocked_lots =
     [(''1700000000001_3f1c.json'',
       PURCHASE \<lparr>p_id = ''id-A'', p_productId = ''p1'', p_warehouseId = ''default'',
                 p_supplierId = ''s1'', p_quantity = 10, p_unitCost = 2, p_totalCost = 20,
                 p_reference = None, p_timestamp = 1700000000000, p_remaining = Some 10\<rparr>),
      (''1700000000006_9e07.json'',
       PURCHASE \<lparr>p_id = ''id-B'', p_productId = ''p1'', p_warehouseId = ''default'',
                 p_supplierId = ''s1'', p_quantity = 5, p_unitCost = 4, p_totalCost = 20,
                 p_reference = None, p_timestamp = 1700000000005, p_remaining = Some 5\<rparr>)]"

text \<open>
  A ledger entry with no zero in its validated numeric fields: the quantity and unit
  cost of a purchase, the quantity and unit price of a sale.
\<close>

fun nonzero_entry :: "string \<times> tx \<Rightarrow> bool" where
  "nonzero_entry (f, PURCHASE t) = (p_quantity t \<noteq> 0 \<and> p_unitCost t \<noteq> 0)"
| "nonzero_entry (f, SALE t) = (s_quantity t \<noteq> 0 \<and> s_unitPrice t \<noteq> 0)"

text \<open>A payment of 50 against the 40 owed to supplier \<open>s1\<close> in the scenario.\<close>

definition pay_env :: env where
  "pay_env = \<lparr>tx_uuid = ''id-P'', tx_now = 1700000000020, file_now = 0, file_uuid = []\<rparr>"

definition pay_50 :: pay_req where
  "pay_50 = \<lparr>py_supplierId = Some ''s1'', py_amount = Some 50, py_reference = None\<rparr>"

text \<open>
  The same two purchases served within one millisecond: lot A is stamped at
  \<open>...000\<close> and its file is written at \<open>...001\<close>; lot B is stamped and written at
  \<open>...001\<close>. The UUID of A's file name happens to be the larger one.
\<close>

definition purchase_A_same_ms :: request where
  "purchase_A_same_ms = Purchase
     \<lparr>tx_uuid = ''id-A'', tx_now = 1700000000000, file_now = 1700000000001, file_uuid = ''9e07''\<rparr>
     \<lparr>pr_productId = Some ''p1'', pr_warehouseId = None, pr_supplierId = Some ''s1'',
      pr_quantity = Some 10, pr_unitCost = Some 2, pr_reference = None\<rparr>"

definition purchase_B_same_ms :: request where
  "purchase_B_same_ms = Purchase
     \<lparr>tx_uuid = ''id-B'', tx_now = 1700000000001, file_now = 1700000000001, file_uuid = ''3f1c''\<rparr>
     \<lparr>pr_productId = Some ''p1'', pr_warehouseId = None, pr_supplierId = Some ''s1'',
      pr_quantity = Some 5, pr_unitCost = Some 4, pr_reference = None\<rparr>"

definition stocked_same_ms :: state where
  "stocked_same_ms = run [Products {''p1''}, purchase_A_same_ms, purchase_B_same_ms] init"

definition lots_same_ms :: directory where
  "lots_same_ms =
     [(''1700000000001_9e07.json'',
       PURCHASE \<lparr>p_id = ''id-A'', p_productId = ''p1'', p_warehouseId = ''default'',
                 p_supplierId = ''s1'', p_quantity = 10, p_unitCost = 2, p_totalCost = 20,
                 p_reference = None, p_timestamp = 1700000000000, p_remaining = Some 10\<rparr>),
      (''1700000000001_3f1c.json'',
       PURCHASE \<lparr>p_id = ''id-B'', p_productId = ''p1'', p_warehouseId = ''default'',
                 p_supplierId = ''s1'', p_quantity = 5, p_unitCost = 4, p_totalCost = 20,
                 p_reference = None, p_timestamp = 1700000000001, p_remaining = Some 5\<rparr>)]"

text \<open>The SALE transaction of the scenario's sale, with its cost of goods sold.\<close>

definition sold_12 :: "rat option \<Rightarrow> sale_tx" where
  "sold_12 cogs = \<lparr>s_id = ''id-S'', s_productId = ''p1'', s_warehouseId = ''default'',
       s_quantity = 12, s_unitPrice = 5, s_totalRevenue = 60, s_cogs = cogs,
       s_timestamp = 1700000000010\<rparr>"

text \<open>The \<^verbatim>\<open>remaining\<close> field of every purchase file, by transaction id.\<close>

definition lot_remaining :: "directory \<Rightarrow> (string \<times> rat option) list" where
  "lot_remaining dir =
     concat (map (\<lambda>(f, t). case t of PURCHASE b \<Rightarrow> [(p_id b, p_remaining b)] | SALE x \<Rightarrow> []) dir)"

subsection \<open>Two sales in flight\<close>

text \<open>
  One schedule of two sale requests served by the single-threaded event loop: each
  handler is suspended where it awaits the store, so the second request can be checked
  and costed between the first request's check and its writes. \<^verbatim>\<open>withLock\<close> is taken
  inside \<^verbatim>\<open>writeJsonSafe\<close> only, around the one \<^verbatim>\<open>atomicWriteJson\<close> of a document,
  and nothing else of the handler waits for it.
\<close>

definition two_sales_in_flight ::
  "env \<Rightarrow> sale_req \<Rightarrow> env \<Rightarrow> sale_req \<Rightarrow> state \<Rightarrow> (response \<times> response \<times> state) option" where
  "two_sales_in_flight e1 req1 e2 req2 s =
     (case sale_check req1 s of
        Inl r \<Rightarrow> None
      | Inr p1 \<Rightarrow>
          (case sale_check req2 s of
             Inl r \<Rightarrow> None
           | Inr p2 \<Rightarrow>
               (case sale_cost p1 s of
                  Inl x \<Rightarrow> None
                | Inr cogs1 \<Rightarrow>
                    (case sale_cost p2 s of
                       Inl x \<Rightarrow> None
                     | Inr cogs2 \<Rightarrow>
                         (case sale_commit e1 p1 cogs1 s of
                            (r1, s1) \<Rightarrow>
                              (case sale_commit e2 p2 cogs2 s1 of
                                 (r2, s2) \<Rightarrow> Some (r1, r2, s2)))))))"

text \<open>One lot of 5 units, and two requests that each sell 5 units of it.\<close>

definition one_lot :: state where
  "one_lot = run [Products {''p1''}, purchase_B] init"

definition sale_5 :: sale_req where
  "sale_5 = \<lparr>sr_productId = Some ''p1'', sr_warehouseId = None,
       sr_quantity = Some 5, sr_unitPrice = Some 5, sr_costingMethod = None\<rparr>"

definition sale_env_2 :: env where
  "sale_env_2 = \<lparr>tx_uuid = ''id-T'', tx_now = 1700000000012, file_now = 1700000000013,
                 file_uuid = ''77aa''\<rparr>"

definition pending_5 :: pending_sale where
  "pending_5 = \<lparr>ps_balances = [''p1'' \<mapsto> [''default'' \<mapsto> 5]], ps_avail = 5,
       ps_productId = ''p1'', ps_warehouseId = ''default'', ps_quantity = 5,
       ps_unitPrice = 5, ps_fifo = True\<rparr>"

definition sold_5 :: "env \<Rightarrow> sale_tx" where
  "sold_5 e = \<lparr>s_id = tx_uuid e, s_productId = ''p1'', s_warehouseId = ''default'',
       s_quantity = 5, s_unitPrice = 5, s_totalRevenue = 25, s_cogs = Some 20,
       s_timestamp = tx_now e\<rparr>"

definition emptied_lot :: "string \<times> tx" where
  "emptied_lot =
     (''1700000000006_9e07.json'',
      PURCHASE \<lparr>p_id = ''id-B'', p_productId = ''p1'', p_warehouseId = ''default'',
                p_supplierId = ''s1'', p_quantity = 5, p_unitCost = 4, p_totalCost = 20,
                p_reference = None, p_timestamp = 1700000000005, p_remaining = Some 0\<rparr>)"

subsection \<open>Consistency of the store\<close>

text \<open>
  What the ledger and the balance projection owe each other, for every product and
  warehouse: the stored balance is the replayed balance, it is not negative, the
  purchase lots hold at least the balance, no lot has a negative availability, and no
  two files of the directory share a name.
\<close>

fun nonneg_lot :: "string \<times> tx \<Rightarrow> bool" where
  "nonneg_lot (f, PURCHASE b) = (0 \<le> available b)"
| "nonneg_lot (f, SALE x) = True"

definition consistent :: "state \<Rightarrow> bool" where
  "consistent s \<longleftrightarrow>
     (\<forall>p w. lookup_balance (balances s) p w = ledger_replay (transactions s) p w)
   \<and> (\<forall>p w. 0 \<le> lookup_balance (balances s) p w)
   \<and> (\<forall>p w. lookup_balance (balances s) p w \<le> lots_available (transactions s) p w)
   \<and> list_all nonneg_lot (transactions s)
   \<and> distinct (map fst (transactions s))"


definition sale_negative :: sale_req where
  "sale_negative = \<lparr>sr_productId = Some ''p1'', sr_warehouseId = None,
       sr_quantity = Some (- 3), sr_unitPrice = Some 5, sr_costingMethod = None\<rparr>"

text \<open>
  The scenario in full, and a sequence that sells the one lot of 5 units and then
  sells \<open>-3\<close> units.
\<close>

definition scenario :: "request list" where
  "scenario = [Products {''p1''}, purchase_A, purchase_B, Sale sale_env (sale_12 None)]"


text \<open>The directory after the scenario's FIFO sale; the store after the one lot is sold;
  the SALE transaction of the sale of \<open>-3\<close> units.\<close>

definition sold_lots :: directory where
  "sold_lots =
          [(''1700000000001_3f1c.json'',
            PURCHASE \<lparr>p_id = ''id-A'', p_productId = ''p1'', p_warehouseId = ''default'',
               p_supplierId = ''s1'', p_quantity = 10, p_unitCost = 2, p_totalCost = 20,
               p_reference = None, p_timestamp = 1700000000000, p_remaining = Some 0\<rparr>),
           (''1700000000006_9e07.json'',
            PURCHASE \<lparr>p_id = ''id-B'', p_productId = ''p1'', p_warehouseId = ''default'',
               p_supplierId = ''s1'', p_quantity = 5, p_unitCost = 4, p_totalCost = 20,
               p_reference = None, p_timestamp = 1700000000005, p_remaining = Some 3\<rparr>),
           (''1700000000011_c2d4.json'', SALE (sold_12 (Some 28)))]"

definition sold_out :: state where
  "sold_out = one_lot\<lparr>balances := [''p1'' \<mapsto> [''default'' \<mapsto> 0]],
        transactions := [emptied_lot, (''1700000000011_c2d4.json'', SALE (sold_5 sale_env))]\<rparr>"

definition returned_3 :: sale_tx where
  "returned_3 = \<lparr>s_id = ''id-T'', s_productId = ''p1'', s_warehouseId = ''default'',
       s_quantity = - 3, s_unitPrice = 5, s_totalRevenue = - 15, s_cogs = Some 0,
       s_timestamp = 1700000000012\<rparr>"

text \<open>
  The scenario continued: product \<open>p2\<close> is created and 7 units of it are bought at cost
  9 (lot X); then 2 units of \<open>p1\<close> are sold. After the scenario lot A holds 0 of its 10
  units and lot B holds 3 of its 5.
\<close>

definition purchase_X :: request where
  "purchase_X = Purchase
     \<lparr>tx_uuid = ''id-X'', tx_now = 1700000000020, file_now = 1700000000021, file_uuid = ''5b60''\<rparr>
     \<lparr>pr_productId = Some ''p2'', pr_warehouseId = None, pr_supplierId = Some ''s1'',
      pr_quantity = Some 7, pr_unitCost = Some 9, pr_reference = None\<rparr>"

definition two_products :: "request list" where
  "two_products = scenario @ [Products {''p1'', ''p2''}, purchase_X]"

definition lot_X :: "string \<times> tx" where
  "lot_X =
     (''1700000000021_5b60.json'',
      PURCHASE \<lparr>p_id = ''id-X'', p_productId = ''p2'', p_warehouseId = ''default'',
                p_supplierId = ''s1'', p_quantity = 7, p_unitCost = 9, p_totalCost = 63,
                p_reference = None, p_timestamp = 1700000000020, p_remaining = Some 7\<rparr>)"



text \<open>The requests that lead to the store \<open>sold_out\<close>.\<close>

definition selling_out :: "request list" where
  "selling_out = [Products {''p1''}, purchase_B, Sale sale_env sale_5]"

section \<open>Properties\<close>

subsection \<open>The lots of a pair, as the code lists them and as the specification does\<close>

lemma spec_purchases_simps [simp]:
  "spec_purchases [] p w = []"
  "spec_purchases ((f, PURCHASE e) # d) p w =
     (if p_productId e = p \<and> p_warehouseId e = w then (f, e) # spec_purchases d p w
      else spec_purchases d p w)"
  "spec_purchases ((f, SALE x) # d) p w = spec_purchases d p w"
  by (simp_all add: spec_purchases_def)

lemma spec_purchases_append:
  "spec_purchases (d @ d') p w = spec_purchases d p w @ spec_purchases d' p w"
  by (simp add: spec_purchases_def)

lemma collect_batches_spec: "collect_batches d p w = map snd (spec_purchases d p w)"
  by (induction d p w rule: collect_batches.induct) simp_all

lemma spec_purchases_set:
  "(f, e) \<in> set (spec_purchases d p w) \<longleftrightarrow>
     (f, PURCHASE e) \<in> set d \<and> p_productId e = p \<and> p_warehouseId e = w"
  by (induction d p w rule: collect_batches.induct) auto

lemma spec_purchases_names: "(a, b) \<in> set (spec_purchases d p w) \<Longrightarrow> a \<in> fst ` set d"
  by (force simp: spec_purchases_set)

lemma spec_purchases_sorted:
  "sorted (map fst d) \<Longrightarrow> sorted (map fst (spec_purchases d p w))"
proof (induction d p w rule: collect_batches.induct)
  case (1 p w)
  then show ?case by simp
next
  case (2 f obj files p w)
  then show ?case by (auto dest!: spec_purchases_names)
next
  case (3 f obj files p w)
  then show ?case by simp
qed

lemma spec_purchases_distinct:
  "distinct (map fst d) \<Longrightarrow> distinct (map fst (spec_purchases d p w))"
proof (induction d p w rule: collect_batches.induct)
  case (1 p w)
  then show ?case by simp
next
  case (2 f obj files p w)
  then show ?case by (auto dest!: spec_purchases_names) force
next
  case (3 f obj files p w)
  then show ?case by simp
qed

lemma spec_purchases_mset_Cons:
  "mset (spec_purchases (x # d) p w) = mset (spec_purchases [x] p w) + mset (spec_purchases d p w)"
  by (simp add: spec_purchases_def)

lemma spec_purchases_insort:
  "mset (spec_purchases (insort_key k x d) p w) = mset (spec_purchases (x # d) p w)"
proof (induction d)
  case Nil
  then show ?case by simp
next
  case (Cons y d)
  show ?case
  proof (cases "k x \<le> k y")
    case True
    then show ?thesis by simp
  next
    case False
    then have "mset (spec_purchases (insort_key k x (y # d)) p w)
                 = mset (spec_purchases (y # insort_key k x d) p w)"
      by simp
    also have "\<dots> = mset (spec_purchases [y] p w) + mset (spec_purchases (insort_key k x d) p w)"
      by (rule spec_purchases_mset_Cons)
    also have "\<dots> = mset (spec_purchases [y] p w) + mset (spec_purchases (x # d) p w)"
      by (simp only: Cons.IH)
    also have "\<dots> = mset (spec_purchases [y] p w)
                 + (mset (spec_purchases [x] p w) + mset (spec_purchases d p w))"
      by (simp only: spec_purchases_mset_Cons [of x d])
    also have "\<dots> = mset (spec_purchases [x] p w)
                 + (mset (spec_purchases [y] p w) + mset (spec_purchases d p w))"
      by (simp only: ac_simps)
    also have "\<dots> = mset (spec_purchases [x] p w) + mset (spec_purchases (y # d) p w)"
      by (simp only: spec_purchases_mset_Cons [of y d])
    also have "\<dots> = mset (spec_purchases (x # y # d) p w)"
      by (rule spec_purchases_mset_Cons [symmetric])
    finally show ?thesis .
  qed
qed

lemma spec_purchases_sort_key:
  "mset (spec_purchases (sort_key k d) p w) = mset (spec_purchases d p w)"
proof (induction d)
  case Nil
  then show ?case by simp
next
  case (Cons x d)
  have "mset (spec_purchases (sort_key k (x # d)) p w)
          = mset (spec_purchases (x # sort_key k d) p w)"
    by (simp add: spec_purchases_insort)
  also have "\<dots> = mset (spec_purchases [x] p w) + mset (spec_purchases (sort_key k d) p w)"
    by (rule spec_purchases_mset_Cons)
  also have "\<dots> = mset (spec_purchases [x] p w) + mset (spec_purchases d p w)"
    by (simp only: Cons.IH)
  also have "\<dots> = mset (spec_purchases (x # d) p w)"
    by (rule spec_purchases_mset_Cons [symmetric])
  finally show ?case .
qed

lemma insort_key_map:
  "insort_key f (g x) (map g xs) = map g (insort_key (\<lambda>y. f (g y)) x xs)"
  by (induction xs) simp_all

lemma sort_key_map: "sort_key f (map g xs) = map g (sort_key (\<lambda>y. f (g y)) xs)"
  by (induction xs) (simp_all add: insort_key_map)

lemma lex_sorted:
  fixes a :: "'x \<Rightarrow> nat" and b :: "'x \<Rightarrow> string"
  shows "sorted (map a xs) \<Longrightarrow> (\<And>c. sorted (map b (filter (\<lambda>x. a x = c) xs))) \<Longrightarrow>
     sorted (map (\<lambda>x. (a x, b x)) xs)"
proof (induction xs)
  case Nil
  then show ?case by simp
next
  case (Cons x xs)
  have tail: "sorted (map b (filter (\<lambda>x. a x = c) xs))" for c
    using Cons.prems(2) [of c] by (cases "a x = c") simp_all
  have "sorted (map (\<lambda>x. (a x, b x)) xs)"
    using Cons.prems(1) tail by (intro Cons.IH) simp_all
  moreover have "(a x, b x) \<le> (a y, b y)" if "y \<in> set xs" for y
  proof (cases "a x = a y")
    case True
    with Cons.prems(2) [of "a x"] that have "b x \<le> b y" by auto
    with True show ?thesis by simp
  next
    case False
    with Cons.prems(1) that have "a x < a y" by fastforce
    then show ?thesis by (simp add: less_eq_prod_def)
  qed
  ultimately show ?case by auto
qed

text \<open>
  The batches \<^verbatim>\<open>loadPurchaseBatches\<close> returns (the listing by file name, filtered,
  then sorted by timestamp with a stable sort) are the entries of the pair in the order
  of their timestamps and, within one timestamp, of their file names.
\<close>

lemma loadPurchaseBatches_spec_entries:
  assumes "distinct (map fst dir)"
  shows "loadPurchaseBatches dir p w = spec_entries dir p w"
proof -
  let ?Q = "spec_purchases dir p w"
  let ?X = "spec_purchases (readdir dir) p w"
  let ?Z = "sort_key (\<lambda>y. p_timestamp (snd y)) ?X"
  let ?lex = "\<lambda>(f, e). (p_timestamp e, f)"
  have msetX: "mset ?X = mset ?Q"
    by (simp add: readdir_def spec_purchases_sort_key)
  have sortedX: "sorted (map fst ?X)"
    by (intro spec_purchases_sorted) (simp add: readdir_def)
  have stable: "sorted (map fst (filter (\<lambda>x. p_timestamp (snd x) = c) ?Z))" for c
    using sortedX by (simp add: sort_key_stable sorted_filter)
  have "sorted (map (\<lambda>x. (p_timestamp (snd x), fst x)) ?Z)"
    using stable by (intro lex_sorted) simp_all
  then have sortedZ: "sorted (map ?lex ?Z)"
    by (simp add: case_prod_unfold)
  have "distinct (map fst ?Q)" using assms by (rule spec_purchases_distinct)
  then have "inj_on fst (set ?Q)" by (simp add: distinct_map)
  then have inj: "inj_on ?lex (set ?Q)"
    by (fastforce simp: inj_on_def)
  have "mset ?Q = mset ?Z" using msetX by simp
  from sort_key_inj_key_eq [OF this inj sortedZ]
  have "sort_key ?lex ?Q = ?Z" .
  then show ?thesis
    by (simp add: loadPurchaseBatches_def spec_entries_def collect_batches_spec sort_key_map)
qed

lemma available_spec: "available b = remaining_or_quantity b"
  by (cases "p_remaining b") (simp_all add: available_def remaining_or_quantity_def)

lemma sum_list_insort_key:
  "sum_list (map g (insort_key k x xs)) = g x + sum_list (map (g::'a \<Rightarrow> rat) xs)"
  by (induction xs) simp_all

lemma sum_list_sort_key: "sum_list (map g (sort_key k xs)) = sum_list (map (g::'a \<Rightarrow> rat) xs)"
  by (induction xs) (simp_all add: sum_list_insort_key)

lemma spec_entries_total:
  "(\<Sum>e \<leftarrow> spec_entries dir p w. remaining_or_quantity e) = spec_total_quantity dir p w"
  by (simp add: spec_entries_def spec_total_quantity_def sum_list_sort_key comp_def
        case_prod_unfold)

lemma spec_entries_total_cost:
  "(\<Sum>e \<leftarrow> spec_entries dir p w. remaining_or_quantity e * p_unitCost e)
     = spec_total_cost dir p w"
  by (simp add: spec_entries_def spec_total_cost_def sum_list_sort_key comp_def
        case_prod_unfold)

lemma lots_available_spec: "lots_available d p w = spec_total_quantity d p w"
  by (simp add: lots_available_def spec_total_quantity_def collect_batches_spec comp_def
        case_prod_unfold available_spec)

lemma spec_total_quantity_readdir:
  "spec_total_quantity (readdir d) p w = spec_total_quantity d p w"
proof -
  have "spec_total_quantity d' p w
          = sum_mset (image_mset (\<lambda>x. remaining_or_quantity (snd x)) (mset (spec_purchases d' p w)))"
    for d'
    by (simp add: spec_total_quantity_def case_prod_unfold sum_mset_sum_list [symmetric])
  then show ?thesis by (simp add: readdir_def spec_purchases_sort_key)
qed

subsection \<open>FIFO cost\<close>

lemma fifo_loop_spec_walk:
  "list_all (\<lambda>b. 0 \<le> available b) bs \<Longrightarrow> 0 \<le> need \<Longrightarrow>
     snd (fifo_loop bs need cost) = spec_walk bs need cost \<and>
     (0 < fst (fifo_loop bs need cost) \<longleftrightarrow> sum_list (map available bs) < need)"
proof (induction bs arbitrary: need cost)
  case Nil
  then show ?case by simp
next
  case (Cons b bs)
  from Cons.prems have nn: "0 \<le> available b" and rest: "list_all (\<lambda>b. 0 \<le> available b) bs"
    by simp_all
  note roq = available_spec [of b, symmetric]
  show ?case
  proof (cases "available b \<le> 0")
    case True
    with nn have z: "available b = 0" by simp
    show ?thesis
      using Cons.IH [OF rest Cons.prems(2), of cost] z Cons.prems(2)
      by (cases bs) (auto simp: Let_def min_def roq)
  next
    case False
    show ?thesis
    proof (cases "need - min (available b) need \<le> 0")
      case True
      then have le: "need \<le> available b" by (simp add: min_def split: if_splits)
      have sum_nn: "0 \<le> sum_list (map available bs)"
        using rest by (induction bs) auto
      show ?thesis
        using False True le sum_nn Cons.prems(2)
        by (cases bs) (auto simp: Let_def min_def roq)
    next
      case gt: False
      then have lt: "available b < need" by (simp add: min_def split: if_splits)
      have pos: "0 \<le> need - min (available b) need" using gt by simp
      show ?thesis
        using False gt lt Cons.IH [OF rest pos, of "cost + min (available b) need * p_unitCost b"]
        by (auto simp: Let_def min_def roq)
    qed
  qed
qed

text \<open>
  C1, as the code has it. On a directory whose lots of the pair hold whole, non-negative
  numbers of units at whole unit costs (within the range where doubles are exact) and
  for a whole requested quantity that is not negative, \<^verbatim>\<open>computeCOGS_FIFO\<close> returns
  what the walk of the specification returns over the PURCHASE entries of the pair in
  the order of their timestamps (by file name within one timestamp):
  \<open>min (remaining-or-quantity) stillNeeded\<close> units are taken from each at its unit cost
  until the need is zero, and the FIFO failure is thrown exactly when the total
  available quantity is less than the requested one.
\<close>

theorem computeCOGS_FIFO_spec:
  assumes "distinct (map fst dir)"
    and "exact_lots (spec_entries dir productId warehouseId)"
    and "isInteger n" and "0 \<le> n" and "n \<le> MAX_SAFE_INTEGER"
  shows "computeCOGS_FIFO dir productId warehouseId n = spec_fifo dir productId warehouseId n"
proof -
  have load: "loadPurchaseBatches dir productId warehouseId = spec_entries dir productId warehouseId"
    using assms(1) by (rule loadPurchaseBatches_spec_entries)
  have "list_all (\<lambda>b. 0 \<le> available b) (spec_entries dir productId warehouseId)"
    using assms(2) by (auto simp: exact_lots_def list_all_iff available_spec)
  from fifo_loop_spec_walk [OF this assms(4), of 0]
  show ?thesis
    by (auto simp: computeCOGS_FIFO_def spec_fifo_def load available_spec [abs_def]
          spec_entries_total split: prod.splits)
qed

subsection \<open>Evaluating the scenario\<close>

lemmas handler_defs =
  falsy_str_def falsy_num_def Let_def warehouse_or_default_def lookup_balance_def
  or_null_def writeTransaction_def atomicWriteJson_def

lemma fname_A: "fname 1700000000001 ''3f1c'' = ''1700000000001_3f1c.json''"
  by (simp add: fname_def decimal.simps digit_def)

lemma fname_B: "fname 1700000000006 ''9e07'' = ''1700000000006_9e07.json''"
  by (simp add: fname_def decimal.simps digit_def)

lemma fname_S: "fname 1700000000011 ''c2d4'' = ''1700000000011_c2d4.json''"
  by (simp add: fname_def decimal.simps digit_def)

lemma stocked_first:
  "snd (handle purchase_A (snd (handle (Products {''p1''}) init))) =
     \<lparr>products = {''p1''}, balances = [''p1'' \<mapsto> [''default'' \<mapsto> 10]],
      payables = [''s1'' \<mapsto> \<lparr>amount = 20,
            invoices = [\<lparr>inv_id = ''id-A'', inv_amount = 20, inv_reference = None,
                        inv_timestamp = 1700000000000\<rparr>],
            payments = None\<rparr>],
      transactions = [hd stocked_lots]\<rparr>"
  by (simp add: init_def purchase_A_def purchase_def handler_defs fname_A stocked_lots_def)

lemma stocked_eq:
  "stocked =
     \<lparr>products = {''p1''}, balances = [''p1'' \<mapsto> [''default'' \<mapsto> 15]],
      payables = [''s1'' \<mapsto> \<lparr>amount = 40,
            invoices = [\<lparr>inv_id = ''id-A'', inv_amount = 20, inv_reference = None,
                        inv_timestamp = 1700000000000\<rparr>,
                       \<lparr>inv_id = ''id-B'', inv_amount = 20, inv_reference = None,
                        inv_timestamp = 1700000000005\<rparr>],
            payments = None\<rparr>],
      transactions = stocked_lots\<rparr>"
  unfolding stocked_def run.simps stocked_first
  by (simp add: purchase_B_def purchase_def handler_defs fname_A fname_B stocked_lots_def)

lemma stocked_batches:
  "loadPurchaseBatches stocked_lots ''p1'' ''default'' = map (\<lambda>(f, t). case t of PURCHASE b \<Rightarrow> b) stocked_lots"
  by (simp add: stocked_lots_def loadPurchaseBatches_def readdir_def)

lemma stocked_entries:
  "spec_entries stocked_lots ''p1'' ''default'' = map (\<lambda>(f, t). case t of PURCHASE b \<Rightarrow> b) stocked_lots"
  by (simp add: stocked_lots_def spec_entries_def)

subsection \<open>Rejected sales\<close>

lemma stocked_run: "stocked = run stocking init"
  by (simp add: stocked_def stocking_def)

lemma stocking_plain: "ordinary_keys stocking" "exact_numbers stocking"
  by (simp_all add: stocking_def ordinary_keys_def ordinary_key_def object_prototype_members_def
        exact_numbers_def isInteger_def magnitude_def MAX_SAFE_INTEGER_def
        purchase_A_def purchase_B_def present_def warehouse_or_default_def)




subsection \<open>Payments\<close>

text \<open>
  C7, as the code has it. In a store reached by requests with ordinary identifiers and
  exact numbers, a payment request with an ordinary supplier id and a positive whole
  amount: when the supplier has no payable record the answer is status 400
  \<open>no payable\<close> and the state is unchanged; when it has one, the answer is \<open>ok\<close>, the
  outstanding amount is reduced by the payment and floored at zero (it is zero when the
  payment is at least the amount, it is never negative, and it is less than before when
  something was owed), the invoices are kept, one payment record is appended to the
  payment history, and nothing else changes.
\<close>

theorem pay_floors_at_zero:
  assumes "s = run rs init" and "ordinary_keys (rs @ [Pay e req])"
    and "exact_numbers (rs @ [Pay e req])"
    and "py_supplierId req = Some supplierId" and "supplierId \<noteq> []"
    and "py_amount req = Some amt" and "0 < amt"
  shows "(payables s supplierId = None \<longrightarrow> pay e req s = (Status 400 No_payable, s))
       \<and> (\<forall>pb. payables s supplierId = Some pb \<longrightarrow>
            (\<exists>pb'. pay e req s = (Ok, s\<lparr>payables := (payables s)(supplierId \<mapsto> pb')\<rparr>)
               \<and> amount pb' = (if amount pb \<le> amt then 0 else amount pb - amt)
               \<and> 0 \<le> amount pb'
               \<and> (0 \<le> amount pb \<longrightarrow> amount pb' \<le> amount pb)
               \<and> (0 < amount pb \<longrightarrow> amount pb' < amount pb)
               \<and> invoices pb' = invoices pb
               \<and> payments pb' =
                   Some ((case payments pb of None \<Rightarrow> [] | Some ps \<Rightarrow> ps) @
                     [\<lparr>pay_id = tx_uuid e, pay_amount = amt,
                       pay_reference = or_null (py_reference req),
                       pay_timestamp = tx_now e\<rparr>])))"
proof (intro conjI allI impI)
  assume "payables s supplierId = None"
  then show "pay e req s = (Status 400 No_payable, s)"
    using assms(4-7) by (simp add: pay_def falsy_str_def falsy_num_def Let_def)
next
  fix pb assume pb: "payables s supplierId = Some pb"
  let ?pb' = "pb\<lparr>amount := (if amount pb - amt < 0 then 0 else amount pb - amt),
                 payments := Some ((case payments pb of None \<Rightarrow> [] | Some ps \<Rightarrow> ps) @
                   [\<lparr>pay_id = tx_uuid e, pay_amount = amt,
                     pay_reference = or_null (py_reference req),
                     pay_timestamp = tx_now e\<rparr>])\<rparr>"
  have "pay e req s = (Ok, s\<lparr>payables := (payables s)(supplierId \<mapsto> ?pb')\<rparr>)"
    using assms(4-7) pb by (simp add: pay_def falsy_str_def falsy_num_def Let_def)
  moreover have "amount ?pb' = (if amount pb \<le> amt then 0 else amount pb - amt)"
    by simp
  moreover have "0 \<le> amount ?pb'" by simp
  moreover have "0 \<le> amount pb \<longrightarrow> amount ?pb' \<le> amount pb"
    using assms(7) by simp
  moreover have "0 < amount pb \<longrightarrow> amount ?pb' < amount pb"
    using assms(7) by simp
  moreover have "invoices ?pb' = invoices pb" by simp
  moreover have "payments ?pb' =
      Some ((case payments pb of None \<Rightarrow> [] | Some ps \<Rightarrow> ps) @
        [\<lparr>pay_id = tx_uuid e, pay_amount = amt, pay_reference = or_null (py_reference req),
          pay_timestamp = tx_now e\<rparr>])"
    by simp
  ultimately show "\<exists>pb'. pay e req s = (Ok, s\<lparr>payables := (payables s)(supplierId \<mapsto> pb')\<rparr>)
               \<and> amount pb' = (if amount pb \<le> amt then 0 else amount pb - amt)
               \<and> 0 \<le> amount pb'
               \<and> (0 \<le> amount pb \<longrightarrow> amount pb' \<le> amount pb)
               \<and> (0 < amount pb \<longrightarrow> amount pb' < amount pb)
               \<and> invoices pb' = invoices pb
               \<and> payments pb' =
                   Some ((case payments pb of None \<Rightarrow> [] | Some ps \<Rightarrow> ps) @
                     [\<lparr>pay_id = tx_uuid e, pay_amount = amt,
                       pay_reference = or_null (py_reference req),
                       pay_timestamp = tx_now e\<rparr>])"
    by blast
qed

text \<open>
  In the scenario supplier \<open>s1\<close> is owed 40: a payment of 15 leaves 25, a payment of 50
  leaves 0 and a history of one payment; the same payment to the unknown supplier
  \<open>s2\<close> is refused.
\<close>

lemma pay_keys:
  "ordinary_keys (stocking @ [Pay pay_env (pay_50\<lparr>py_supplierId := Some k, py_amount := Some a\<rparr>)])
     \<longleftrightarrow> ordinary_key k"
  using stocking_plain(1) by (simp add: ordinary_keys_def present_def)

lemma pay_exact:
  "isInteger a \<Longrightarrow> \<bar>a\<bar> \<le> 1000 \<Longrightarrow>
     exact_numbers (stocking @ [Pay pay_env (pay_50\<lparr>py_supplierId := Some k, py_amount := Some a\<rparr>)])"
  by (simp add: stocking_def exact_numbers_def isInteger_def magnitude_def MAX_SAFE_INTEGER_def
        purchase_A_def purchase_B_def)

lemma ordinary_suppliers: "ordinary_key ''s1''" "ordinary_key ''s2''"
  by (simp_all add: ordinary_key_def object_prototype_members_def)

theorem pay_floors_at_zero_scenario:
  "map_option amount (payables (run stocking init) ''s1'') = Some 40
   \<and> fst (pay pay_env pay_50 (run stocking init)) = Ok
   \<and> map_option amount (payables (snd (pay pay_env pay_50 (run stocking init))) ''s1'') = Some 0
   \<and> map_option payments (payables (snd (pay pay_env pay_50 (run stocking init))) ''s1'')
       = Some (Some [\<lparr>pay_id = ''id-P'', pay_amount = 50, pay_reference = None,
                       pay_timestamp = 1700000000020\<rparr>])
   \<and> map_option amount
        (payables (snd (pay pay_env (pay_50\<lparr>py_amount := Some 15\<rparr>) (run stocking init))) ''s1'')
       = Some 25
   \<and> pay pay_env (pay_50\<lparr>py_supplierId := Some ''s2''\<rparr>) (run stocking init)
       = (Status 400 No_payable, run stocking init)"
proof -
  let ?s = "run stocking init"
  have s: "?s = stocked" by (simp add: stocked_run)
  have known: "payables ?s ''s1'' \<noteq> None" and unknown: "payables ?s ''s2'' = None"
    by (simp_all add: s stocked_eq)
  from known obtain pb where pb: "payables ?s ''s1'' = Some pb" by blast
  then have pb_eq: "amount pb = 40" "payments pb = None"
    by (auto simp: s stocked_eq)
  have req: "pay_50 = pay_50\<lparr>py_supplierId := Some ''s1'', py_amount := Some 50\<rparr>"
    "pay_50\<lparr>py_amount := Some 15\<rparr> = pay_50\<lparr>py_supplierId := Some ''s1'', py_amount := Some 15\<rparr>"
    "pay_50\<lparr>py_supplierId := Some ''s2''\<rparr> = pay_50\<lparr>py_supplierId := Some ''s2'', py_amount := Some 50\<rparr>"
    by (simp_all add: pay_50_def)
  have k: "ordinary_keys (stocking @ [Pay pay_env pay_50])"
    "ordinary_keys (stocking @ [Pay pay_env (pay_50\<lparr>py_amount := Some 15\<rparr>)])"
    "ordinary_keys (stocking @ [Pay pay_env (pay_50\<lparr>py_supplierId := Some ''s2''\<rparr>)])"
    by (subst req, simp only: pay_keys ordinary_suppliers)+
  have x: "exact_numbers (stocking @ [Pay pay_env pay_50])"
    "exact_numbers (stocking @ [Pay pay_env (pay_50\<lparr>py_amount := Some 15\<rparr>)])"
    "exact_numbers (stocking @ [Pay pay_env (pay_50\<lparr>py_supplierId := Some ''s2''\<rparr>)])"
    by (subst req, rule pay_exact, simp_all add: isInteger_def)+
  from pay_floors_at_zero [OF refl k(1) x(1), of "''s1''" 50] pb
  obtain pb1 where a: "pay pay_env pay_50 ?s = (Ok, ?s\<lparr>payables := (payables ?s)(''s1'' \<mapsto> pb1)\<rparr>)"
    "amount pb1 = (if amount pb \<le> 50 then 0 else amount pb - 50)"
    "payments pb1 = Some ((case payments pb of None \<Rightarrow> [] | Some ps \<Rightarrow> ps) @
        [\<lparr>pay_id = tx_uuid pay_env, pay_amount = 50,
          pay_reference = or_null (py_reference pay_50), pay_timestamp = tx_now pay_env\<rparr>])"
    by (auto simp: pay_50_def)
  from pay_floors_at_zero [OF refl k(2) x(2), of "''s1''" 15] pb
  obtain pb2 where b: "pay pay_env (pay_50\<lparr>py_amount := Some 15\<rparr>) ?s
       = (Ok, ?s\<lparr>payables := (payables ?s)(''s1'' \<mapsto> pb2)\<rparr>)"
    "amount pb2 = (if amount pb \<le> 15 then 0 else amount pb - 15)"
    by (auto simp: pay_50_def)
  have c: "pay pay_env (pay_50\<lparr>py_supplierId := Some ''s2''\<rparr>) ?s = (Status 400 No_payable, ?s)"
    using pay_floors_at_zero [OF refl k(3) x(3), of "''s2''" 50] unknown
    by (simp add: pay_50_def)
  show ?thesis
    unfolding a(1) b(1) c using pb pb_eq a(2,3) b(2)
    by (simp add: pay_env_def pay_50_def or_null_def falsy_str_def)
qed

text \<open>
  C7, as stated, fails: a payment of \<open>-10\<close> passes the validation and is answered
  \<open>ok\<close>; the amount owed to supplier \<open>s1\<close> goes from 40 up to 50.
\<close>

theorem negative_payment_raises_the_payable:
  "ordinary_keys (stocking @ [Pay pay_env (pay_50\<lparr>py_amount := Some (- 10)\<rparr>)])
   \<and> exact_numbers (stocking @ [Pay pay_env (pay_50\<lparr>py_amount := Some (- 10)\<rparr>)])
   \<and> map_option amount (payables (run stocking init) ''s1'') = Some 40
   \<and> fst (pay pay_env (pay_50\<lparr>py_amount := Some (- 10)\<rparr>) (run stocking init)) = Ok
   \<and> map_option amount
        (payables (snd (pay pay_env (pay_50\<lparr>py_amount := Some (- 10)\<rparr>) (run stocking init)))
           ''s1'') = Some 50"
proof -
  have req: "pay_50\<lparr>py_amount := Some (- 10)\<rparr>
               = pay_50\<lparr>py_supplierId := Some ''s1'', py_amount := Some (- 10)\<rparr>"
    by (simp add: pay_50_def)
  have "ordinary_keys (stocking @ [Pay pay_env (pay_50\<lparr>py_amount := Some (- 10)\<rparr>)])"
    by (subst req) (simp only: pay_keys ordinary_suppliers)
  moreover have "exact_numbers (stocking @ [Pay pay_env (pay_50\<lparr>py_amount := Some (- 10)\<rparr>)])"
    by (subst req, rule pay_exact) (simp_all add: isInteger_def)
  ultimately show ?thesis
    by (simp add: stocked_run [symmetric] stocked_eq pay_def pay_50_def falsy_str_def
          falsy_num_def Let_def)
qed

subsection \<open>Validation by truthiness\<close>

lemma list_all_update:
  "list_all P d \<Longrightarrow> P (k, v) \<Longrightarrow> list_all P (AList.update k v d)"
  by (induction d) auto

lemma map_of_list_all: "map_of d k = Some v \<Longrightarrow> list_all P d \<Longrightarrow> P (k, v)"
  by (auto simp: list_all_iff dest: map_of_SomeD)

lemma consume_loop_nonzero:
  "consume_loop p w fs r d = Some d' \<Longrightarrow> list_all nonzero_entry d \<Longrightarrow>
     list_all nonzero_entry d'"
proof (induction p w fs r d rule: consume_loop.induct)
  case (1 p w r d)
  then show ?case by simp
next
  case (2 p w f fs r d)
  show ?case
  proof (cases "map_of d f")
    case None
    with 2 show ?thesis by simp
  next
    case (Some t)
    show ?thesis
    proof (cases t)
      case (SALE obj)
      with 2 Some show ?thesis by simp
    next
      case (PURCHASE obj)
      have nz: "nonzero_entry (f, PURCHASE obj)"
        using Some PURCHASE "2.prems"(2) by (auto dest: map_of_list_all)
      have upd: "list_all nonzero_entry
                   (atomicWriteJson f (PURCHASE (obj\<lparr>p_remaining := Some x\<rparr>)) d)" for x
        unfolding atomicWriteJson_def using nz "2.prems"(2)
        by (intro list_all_update) simp_all
      show ?thesis
        using 2 Some PURCHASE upd
        by (auto simp: Let_def split: if_splits)
    qed
  qed
qed

lemma purchase_nonzero:
  "list_all nonzero_entry (transactions s) \<Longrightarrow>
     list_all nonzero_entry (transactions (snd (purchase e req s)))"
  by (auto simp: purchase_def Let_def falsy_num_def writeTransaction_def atomicWriteJson_def
           split: option.splits intro!: list_all_update)

lemma sale_nonzero:
  "list_all nonzero_entry (transactions s) \<Longrightarrow>
     list_all nonzero_entry (transactions (snd (sale e req s)))"
  by (auto simp: sale_def sale_check_def sale_commit_def Let_def falsy_num_def
                 writeTransaction_def atomicWriteJson_def
           split: option.splits sum.splits if_splits
           intro!: list_all_update dest!: consume_loop_nonzero)

lemma pay_transactions: "transactions (snd (pay e req s)) = transactions s"
  by (simp add: pay_def Let_def split: option.splits)

lemma run_nonzero:
  "list_all nonzero_entry (transactions s) \<Longrightarrow>
     list_all nonzero_entry (transactions (run rs s))"
proof (induction rs arbitrary: s)
  case Nil
  then show ?case by simp
next
  case (Cons r rs)
  have "list_all nonzero_entry (transactions (snd (handle r s)))"
    using Cons.prems
    by (cases r) (simp_all add: purchase_nonzero sale_nonzero pay_transactions)
  then show ?case by (simp add: Cons.IH)
qed

text \<open>
  C10. A purchase whose quantity or unit cost is the number 0, and a sale whose
  quantity or unit price is the number 0, are answered with status 400
  \<open>missing fields\<close> and leave the state unchanged; and whatever requests are served
  from the empty store, no purchase with a zero quantity or unit cost and no sale with
  a zero quantity or unit price is in the ledger.
\<close>

theorem zero_fields_rejected:
  "purchase e (preq\<lparr>pr_quantity := Some 0\<rparr>) s = (Status 400 Missing_fields, s)
   \<and> purchase e (preq\<lparr>pr_unitCost := Some 0\<rparr>) s = (Status 400 Missing_fields, s)
   \<and> sale e (sreq\<lparr>sr_quantity := Some 0\<rparr>) s = (Status 400 Missing_fields, s)
   \<and> sale e (sreq\<lparr>sr_unitPrice := Some 0\<rparr>) s = (Status 400 Missing_fields, s)
   \<and> list_all nonzero_entry (transactions (run rs init))"
proof -
  have "list_all nonzero_entry (transactions (run rs init))"
    by (rule run_nonzero) (simp add: init_def)
  then show ?thesis
    by (simp add: purchase_def sale_def sale_check_def falsy_num_def)
qed

subsection \<open>File names\<close>

lemma digit_cases:
  "d < 10 \<Longrightarrow> d = 0 \<or> d = 1 \<or> d = 2 \<or> d = 3 \<or> d = 4 \<or> d = 5 \<or> d = 6 \<or> d = 7 \<or> d = 8 \<or> d = (9::nat)"
  by arith

lemma of_char_digit: "d < 10 \<Longrightarrow> (of_char (digit d) :: nat) = 48 + d"
  using digit_cases [of d] by (auto simp: digit_def)

lemma digit_less: "d < 10 \<Longrightarrow> d' < 10 \<Longrightarrow> digit d < digit d' \<longleftrightarrow> d < d'"
  by (simp add: less_char_def of_char_digit)

lemma decimal_nonempty: "decimal n \<noteq> []"
  by (subst decimal.simps) simp

lemma decimal_length_1: "length (decimal n) = Suc 0 \<longleftrightarrow> n < 10"
proof (cases "n < 10")
  case True
  then show ?thesis by (subst decimal.simps) simp
next
  case False
  have "decimal n = decimal (n div 10) @ [digit (n mod 10)]"
    using False by (subst decimal.simps) simp
  then show ?thesis using False decimal_nonempty [of "n div 10"] by simp
qed

lemma less_append_same_length:
  fixes xs ys :: string
  shows "xs < ys \<Longrightarrow> length xs = length ys \<Longrightarrow> xs @ a < ys @ b"
  unfolding list_less_def by (rule lexord_sufI) simp_all

lemma same_pref_less:
  fixes ys zs :: string
  shows "xs @ ys < xs @ zs \<longleftrightarrow> ys < zs"
  by (simp add: list_less_def lexord_same_pref_iff)

lemma same_suffix_less:
  fixes xs ys :: string
  shows "length xs = length ys \<Longrightarrow> xs @ a < ys @ a \<longleftrightarrow> xs < ys"
  by (induction xs ys rule: list_induct2) simp_all

lemma div_mod_less:
  fixes m n :: nat
  assumes "m < n" and "\<not> m div 10 < n div 10"
  shows "m div 10 = n div 10" and "m mod 10 < n mod 10"
proof -
  have "m div 10 \<le> n div 10" using assms(1) by (simp add: div_le_mono)
  with assms(2) show e: "m div 10 = n div 10" by simp
  have "m = 10 * (m div 10) + m mod 10" "n = 10 * (n div 10) + n mod 10" by simp_all
  with e assms(1) show "m mod 10 < n mod 10" by linarith
qed

lemma decimal_less:
  "length (decimal m) = length (decimal n) \<Longrightarrow> m < n \<Longrightarrow> decimal m < decimal n"
proof (induction m arbitrary: n rule: decimal.induct)
  case (1 m)
  show ?case
  proof (cases "m < 10")
    case True
    with "1.prems"(1) have n: "n < 10"
      using decimal_length_1 [of n] decimal_length_1 [of m] by simp
    have "decimal m = [digit m]" "decimal n = [digit n]"
      using True n by (subst decimal.simps, simp)+
    with True n "1.prems"(2) show ?thesis
      by (simp add: digit_less)
  next
    case False
    then have n10: "\<not> n < 10" using "1.prems"(2) by simp
    have dm: "decimal m = decimal (m div 10) @ [digit (m mod 10)]"
      using False by (subst decimal.simps) simp
    have dn: "decimal n = decimal (n div 10) @ [digit (n mod 10)]"
      using n10 by (subst decimal.simps) simp
    have len: "length (decimal (m div 10)) = length (decimal (n div 10))"
      using "1.prems"(1) dm dn by simp
    show ?thesis
    proof (cases "m div 10 < n div 10")
      case True
      have "decimal (m div 10) < decimal (n div 10)"
        using False len True by (rule "1.IH")
      then have "decimal (m div 10) @ [digit (m mod 10)]
                   < decimal (n div 10) @ [digit (n mod 10)]"
        using len by (rule less_append_same_length)
      then show ?thesis by (simp only: dm dn)
    next
      case eq: False
      note dml = div_mod_less [OF "1.prems"(2) eq]
      have "[digit (m mod 10)] < [digit (n mod 10)]"
        by (simp add: digit_less dml(2))
      then have "decimal (n div 10) @ [digit (m mod 10)]
                   < decimal (n div 10) @ [digit (n mod 10)]"
        by (simp only: same_pref_less)
      then show ?thesis by (simp only: dm dn dml(1))
    qed
  qed
qed

lemma decimal_inj:
  assumes "decimal m = decimal n"
  shows "m = n"
proof (rule ccontr)
  assume "m \<noteq> n"
  then consider "m < n" | "n < m" by linarith
  then show False
  proof cases
    case 1
    with assms decimal_less [of m n] show False by simp
  next
    case 2
    with assms decimal_less [of n m] show False by simp
  qed
qed

text \<open>
  C8, as the code has it. For two clock readings with the same number of decimal digits
  (every reading from 2001 to 2286 has 13): the file name of the earlier reading is the
  lexicographically smaller one, whatever the UUIDs; two names with the same reading
  compare as their UUIDs do (for UUIDs of one length), so the UUID separates them but
  orders them by its value; and two names are equal only for the same reading and UUID.
\<close>

theorem fname_order:
  assumes "length (decimal t1) = length (decimal t2)"
  shows "(t1 < t2 \<longrightarrow> fname t1 u1 < fname t2 u2)
       \<and> (t1 = t2 \<and> length u1 = length u2 \<longrightarrow> (fname t1 u1 < fname t2 u2 \<longleftrightarrow> u1 < u2))
       \<and> (fname t1 u1 = fname t2 u2 \<longleftrightarrow> t1 = t2 \<and> u1 = u2)"
proof (intro conjI impI)
  assume "t1 < t2"
  with assms have "decimal t1 < decimal t2" by (rule decimal_less)
  then show "fname t1 u1 < fname t2 u2"
    unfolding fname_def using assms by (rule less_append_same_length)
next
  assume a: "t1 = t2 \<and> length u1 = length u2"
  then have "u1 @ ''.json'' < u2 @ ''.json'' \<longleftrightarrow> u1 < u2"
    by (simp only: same_suffix_less)
  with a show "fname t1 u1 < fname t2 u2 \<longleftrightarrow> u1 < u2"
    by (simp add: fname_def same_pref_less)
next
  show "fname t1 u1 = fname t2 u2 \<longleftrightarrow> t1 = t2 \<and> u1 = u2"
    using assms by (auto simp: fname_def dest: decimal_inj)
qed

lemma decimal_13:
  "decimal 1700000000001 = ''1700000000001''" "decimal 1700000000006 = ''1700000000006''"
  by (simp_all add: decimal.simps digit_def)

theorem fname_order_example:
  "length (decimal 1700000000001) = length (decimal 1700000000006)
   \<and> fname 1700000000001 ''9e07'' < fname 1700000000006 ''3f1c''
   \<and> fname 1700000000001 ''9e07'' \<noteq> fname 1700000000006 ''3f1c''"
proof -
  have len: "length (decimal 1700000000001) = length (decimal 1700000000006)"
    by (simp add: decimal_13)
  from fname_order [OF len, of "''9e07''" "''3f1c''"] len show ?thesis by simp
qed

lemma fname_A_same_ms: "fname 1700000000001 ''9e07'' = ''1700000000001_9e07.json''"
  by (simp add: fname_def decimal.simps digit_def)

lemma stocked_same_ms_first:
  "snd (handle purchase_A_same_ms (snd (handle (Products {''p1''}) init))) =
     \<lparr>products = {''p1''}, balances = [''p1'' \<mapsto> [''default'' \<mapsto> 10]],
      payables = [''s1'' \<mapsto> \<lparr>amount = 20,
            invoices = [\<lparr>inv_id = ''id-A'', inv_amount = 20, inv_reference = None,
                        inv_timestamp = 1700000000000\<rparr>],
            payments = None\<rparr>],
      transactions = [hd lots_same_ms]\<rparr>"
  by (simp add: init_def purchase_A_same_ms_def purchase_def handler_defs fname_A_same_ms
        lots_same_ms_def)

lemma stocked_same_ms_eq:
  "stocked_same_ms =
     \<lparr>products = {''p1''}, balances = [''p1'' \<mapsto> [''default'' \<mapsto> 15]],
      payables = [''s1'' \<mapsto> \<lparr>amount = 40,
            invoices = [\<lparr>inv_id = ''id-A'', inv_amount = 20, inv_reference = None,
                        inv_timestamp = 1700000000000\<rparr>,
                       \<lparr>inv_id = ''id-B'', inv_amount = 20, inv_reference = None,
                        inv_timestamp = 1700000000001\<rparr>],
            payments = None\<rparr>],
      transactions = lots_same_ms\<rparr>"
  unfolding stocked_same_ms_def run.simps stocked_same_ms_first
  by (simp add: purchase_B_same_ms_def purchase_def handler_defs fname_A fname_A_same_ms
        lots_same_ms_def)

text \<open>
  C8, as stated, fails: of the two purchase files written in the same millisecond, the
  one created first (lot A) has the larger name.
\<close>

theorem same_ms_names_not_in_creation_order:
  "map fst (transactions stocked_same_ms)
     = [''1700000000001_9e07.json'', ''1700000000001_3f1c.json'']
   \<and> map (\<lambda>(f, t). case t of PURCHASE b \<Rightarrow> p_id b | SALE x \<Rightarrow> s_id x)
         (transactions stocked_same_ms) = [''id-A'', ''id-B'']
   \<and> \<not> fst (transactions stocked_same_ms ! 0) < fst (transactions stocked_same_ms ! 1)"
  by (simp add: stocked_same_ms_eq lots_same_ms_def)

subsection \<open>FIFO consumption after a sale\<close>

lemma sale_check_same_ms:
  "sale_check (sale_12 None) stocked_same_ms =
     Inr \<lparr>ps_balances = balances stocked_same_ms, ps_avail = 15, ps_productId = ''p1'',
          ps_warehouseId = ''default'', ps_quantity = 12, ps_unitPrice = 5, ps_fifo = True\<rparr>"
  by (simp add: sale_check_def sale_12_def handler_defs is_FIFO_def toUpperCase_char_def
        stocked_same_ms_eq)

lemma cogs_same_ms: "computeCOGS_FIFO lots_same_ms ''p1'' ''default'' 12 = Inr 28"
  by (simp add: computeCOGS_FIFO_def loadPurchaseBatches_def readdir_def lots_same_ms_def available_def
        Let_def)

lemma sale_same_ms:
  "sale sale_env (sale_12 None) stocked_same_ms =
     (Ok_tx (SALE (sold_12 (Some 28))),
      stocked_same_ms\<lparr>balances := [''p1'' \<mapsto> [''default'' \<mapsto> 3]],
        transactions :=
          [(''1700000000001_9e07.json'',
            PURCHASE \<lparr>p_id = ''id-A'', p_productId = ''p1'', p_warehouseId = ''default'',
               p_supplierId = ''s1'', p_quantity = 10, p_unitCost = 2, p_totalCost = 20,
               p_reference = None, p_timestamp = 1700000000000, p_remaining = Some 3\<rparr>),
           (''1700000000001_3f1c.json'',
            PURCHASE \<lparr>p_id = ''id-B'', p_productId = ''p1'', p_warehouseId = ''default'',
               p_supplierId = ''s1'', p_quantity = 5, p_unitCost = 4, p_totalCost = 20,
               p_reference = None, p_timestamp = 1700000000001, p_remaining = Some 0\<rparr>),
           (''1700000000011_c2d4.json'', SALE (sold_12 (Some 28)))]\<rparr>)"
  unfolding sale_def sale_check_same_ms
  apply (simp add: sale_cost_def stocked_same_ms_eq cogs_same_ms)
  apply (simp add: sale_commit_def sale_env_def fname_S writeTransaction_def
           atomicWriteJson_def Let_def)
  apply (simp add: lots_same_ms_def available_def atomicWriteJson_def Let_def sold_12_def)
  done

text \<open>
  C2 at the failing input. After the two purchases of one millisecond, the FIFO sale of
  12 units is costed over lot A then lot B (\<open>10 * 2 + 2 * 4 = 28\<close>), but the loop that
  reduces \<^verbatim>\<open>remaining\<close> walks the sorted file names and meets lot B first: it takes
  5 units from B and 7 from A, leaving A with 3 and B with 0 where the cost computation
  left A with 0 and B with 3.
\<close>

theorem fifo_consumption_order_differs_from_cost_order:
  "map p_id (loadPurchaseBatches (transactions stocked_same_ms) ''p1'' ''default'')
     = [''id-A'', ''id-B'']
   \<and> fst (sale sale_env (sale_12 None) stocked_same_ms) = Ok_tx (SALE (sold_12 (Some 28)))
   \<and> lot_remaining (transactions (snd (sale sale_env (sale_12 None) stocked_same_ms)))
       = [(''id-A'', Some 3), (''id-B'', Some 0)]"
  unfolding sale_same_ms
  by (simp add: stocked_same_ms_eq lots_same_ms_def loadPurchaseBatches_def readdir_def lot_remaining_def)

subsection \<open>Two sales in flight on one balance\<close>

lemma fname_T: "fname 1700000000013 ''77aa'' = ''1700000000013_77aa.json''"
  by (simp add: fname_def decimal.simps digit_def)

lemma one_lot_eq:
  "one_lot =
     \<lparr>products = {''p1''}, balances = [''p1'' \<mapsto> [''default'' \<mapsto> 5]],
      payables = [''s1'' \<mapsto> \<lparr>amount = 20,
            invoices = [\<lparr>inv_id = ''id-B'', inv_amount = 20, inv_reference = None,
                        inv_timestamp = 1700000000005\<rparr>],
            payments = None\<rparr>],
      transactions = tl stocked_lots\<rparr>"
  by (simp add: one_lot_def init_def purchase_B_def purchase_def handler_defs fname_B
        stocked_lots_def)

lemma check_5: "sale_check sale_5 one_lot = Inr pending_5"
  by (simp add: sale_check_def sale_5_def handler_defs is_FIFO_def toUpperCase_char_def
        one_lot_eq pending_5_def)

lemma cost_5: "sale_cost pending_5 one_lot = Inr (Some 20)"
  by (simp add: sale_cost_def pending_5_def one_lot_eq computeCOGS_FIFO_def
        loadPurchaseBatches_def readdir_def stocked_lots_def available_def Let_def)

lemma commit_first:
  "sale_commit sale_env pending_5 (Some 20) one_lot =
     (Ok_tx (SALE (sold_5 sale_env)),
      one_lot\<lparr>balances := [''p1'' \<mapsto> [''default'' \<mapsto> 0]],
        transactions := [emptied_lot, (''1700000000011_c2d4.json'', SALE (sold_5 sale_env))]\<rparr>)"
  by (simp add: sale_commit_def pending_5_def one_lot_eq sale_env_def fname_S
        writeTransaction_def atomicWriteJson_def Let_def stocked_lots_def available_def
        sold_5_def emptied_lot_def)

lemma commit_second:
  "sale_commit sale_env_2 pending_5 (Some 20)
     (one_lot\<lparr>balances := [''p1'' \<mapsto> [''default'' \<mapsto> 0]],
        transactions := [emptied_lot, (''1700000000011_c2d4.json'', SALE (sold_5 sale_env))]\<rparr>) =
     (Ok_tx (SALE (sold_5 sale_env_2)),
      one_lot\<lparr>balances := [''p1'' \<mapsto> [''default'' \<mapsto> 0]],
        transactions := [emptied_lot, (''1700000000011_c2d4.json'', SALE (sold_5 sale_env)),
                         (''1700000000013_77aa.json'', SALE (sold_5 sale_env_2))]\<rparr>)"
  by (simp add: sale_commit_def pending_5_def one_lot_eq sale_env_2_def fname_T
        writeTransaction_def atomicWriteJson_def Let_def available_def
        sold_5_def emptied_lot_def)

text \<open>
  C9 at the failing input. The balance is 5 and the one lot holds 5 units. Two sales of 5
  units, the second checked and costed before the first writes: both pass the
  availability check against the balance 5, both are answered \<open>ok\<close>; the ledger then
  holds sales of 10 units against purchases of 5 (a replayed balance of \<open>-5\<close>) while
  \<^verbatim>\<open>balances.json\<close> says 0. Served one after the other, the second sale is refused.
\<close>

theorem two_sales_in_flight_oversell:
  "lookup_balance (balances one_lot) ''p1'' ''default'' = 5
   \<and> map_option (\<lambda>(r1, r2, s2).
          (r1, r2, lookup_balance (balances s2) ''p1'' ''default'',
           ledger_replay (transactions s2) ''p1'' ''default'',
           lot_remaining (transactions s2)))
        (two_sales_in_flight sale_env sale_5 sale_env_2 sale_5 one_lot)
       = Some (Ok_tx (SALE (sold_5 sale_env)), Ok_tx (SALE (sold_5 sale_env_2)),
               0, - 5, [(''id-B'', Some 0)])
   \<and> fst (sale sale_env_2 sale_5 (snd (sale sale_env sale_5 one_lot)))
       = Status 400 (Insufficient_stock 0)"
proof -
  have bal: "lookup_balance (balances one_lot) ''p1'' ''default'' = 5"
    by (simp add: one_lot_eq lookup_balance_def)
  have flight: "two_sales_in_flight sale_env sale_5 sale_env_2 sale_5 one_lot =
      Some (Ok_tx (SALE (sold_5 sale_env)), Ok_tx (SALE (sold_5 sale_env_2)),
        one_lot\<lparr>balances := [''p1'' \<mapsto> [''default'' \<mapsto> 0]],
          transactions := [emptied_lot, (''1700000000011_c2d4.json'', SALE (sold_5 sale_env)),
                           (''1700000000013_77aa.json'', SALE (sold_5 sale_env_2))]\<rparr>)"
    by (simp add: two_sales_in_flight_def check_5 cost_5 commit_first commit_second)
  have first: "sale sale_env sale_5 one_lot =
      (Ok_tx (SALE (sold_5 sale_env)),
       one_lot\<lparr>balances := [''p1'' \<mapsto> [''default'' \<mapsto> 0]],
         transactions := [emptied_lot, (''1700000000011_c2d4.json'', SALE (sold_5 sale_env))]\<rparr>)"
    by (simp add: sale_def check_5 cost_5 commit_first)
  have second: "fst (sale sale_env_2 sale_5 (snd (sale sale_env sale_5 one_lot)))
                  = Status 400 (Insufficient_stock 0)"
    unfolding first
    by (simp add: sale_def sale_check_def sale_5_def handler_defs)
  show ?thesis
    unfolding flight using bal second
    by (simp add: lookup_balance_def emptied_lot_def sold_5_def lot_remaining_def)
qed

subsection \<open>Average costing\<close>


lemma update_fresh: "k \<notin> set (map fst d) \<Longrightarrow> AList.update k v d = d @ [(k, v)]"
  by (induction d) auto

lemma lookup_balance_pos: "lookup_balance bal p w \<noteq> 0 \<Longrightarrow> \<exists>row. bal p = Some row"
  by (auto simp: lookup_balance_def split: option.splits)





subsection \<open>Effects on the balance, the replay and the lots\<close>


lemma lookup_balance_row:
  "bal p = Some row \<Longrightarrow>
     lookup_balance (bal(p \<mapsto> row(w \<mapsto> v))) p' w' =
       (if p' = p \<and> w' = w then v else lookup_balance bal p' w')"
  by (simp add: lookup_balance_def)

lemma lookup_balance_new_row:
  "bal p = None \<Longrightarrow>
     lookup_balance (bal(p \<mapsto> Map.empty(w \<mapsto> v))) p' w' =
       (if p' = p \<and> w' = w then v else lookup_balance bal p' w')"
  by (simp add: lookup_balance_def)

lemma ledger_replay_append:
  "ledger_replay (d @ [(k, t)]) p w = ledger_replay d p w + ledger_replay [(k, t)] p w"
  by (induction d p w rule: ledger_replay.induct) simp_all

lemma collect_batches_append:
  "collect_batches (d @ d') p w = collect_batches d p w @ collect_batches d' p w"
  by (induction d p w rule: collect_batches.induct) simp_all

lemma lots_available_append:
  "lots_available (d @ d') p w = lots_available d p w + lots_available d' p w"
  by (simp add: lots_available_def collect_batches_append)

lemma upd_keys: "map_of d k = Some v \<Longrightarrow> map fst (AList.update k v' d) = map fst d"
  by (induction d) (auto split: if_splits)

lemma upd_replay:
  "map_of d k = Some (PURCHASE b) \<Longrightarrow>
     ledger_replay (AList.update k (PURCHASE (b\<lparr>p_remaining := x\<rparr>)) d) p w = ledger_replay d p w"
proof (induction d p w rule: ledger_replay.induct)
  case (1 p w)
  then show ?case by simp
next
  case (2 f t dir p w)
  then show ?case by (cases "f = k") auto
next
  case (3 f t dir p w)
  then show ?case by (cases "f = k") auto
qed

lemma upd_lots:
  "map_of d k = Some (PURCHASE b) \<Longrightarrow>
     lots_available (AList.update k (PURCHASE (b\<lparr>p_remaining := Some x\<rparr>)) d) p w =
       lots_available d p w
         + (if p_productId b = p \<and> p_warehouseId b = w then x - available b else 0)"
proof (induction d p w rule: collect_batches.induct)
  case (1 p w)
  then show ?case by simp
next
  case (2 f obj files p w)
  then show ?case by (cases "f = k") (auto simp: lots_available_def available_def)
next
  case (3 f obj files p w)
  then show ?case by (cases "f = k") (auto simp: lots_available_def)
qed

lemma available_set_remaining [simp]: "available (b\<lparr>p_remaining := Some x\<rparr>) = x"
  by (simp add: available_def)

lemma consume_loop_invariant:
  assumes step: "\<And>r d f obj. P r d \<Longrightarrow> f \<in> F \<Longrightarrow> map_of d f = Some (PURCHASE obj) \<Longrightarrow>
            p_productId obj = p \<Longrightarrow> p_warehouseId obj = w \<Longrightarrow> 0 < available obj \<Longrightarrow>
            P (r - min (available obj) r)
              (AList.update f
                 (PURCHASE (obj\<lparr>p_remaining := Some (available obj - min (available obj) r)\<rparr>)) d)"
  shows "consume_loop p w fs r d = Some d' \<Longrightarrow> set fs \<subseteq> F \<Longrightarrow> P r d \<Longrightarrow> \<exists>r'. P r' d'"
proof (induction fs arbitrary: r d)
  case Nil
  then show ?case by auto
next
  case (Cons f fs)
  from Cons.prems(2) have sub: "set fs \<subseteq> F" and fF: "f \<in> F" by auto
  show ?case
  proof (cases "map_of d f")
    case None
    with Cons.prems(1) show ?thesis by simp
  next
    case (Some t)
    show ?thesis
    proof (cases t)
      case (SALE obj)
      with Some Cons.prems(1) have "consume_loop p w fs r d = Some d'" by simp
      then show ?thesis using sub Cons.prems(3) by (rule Cons.IH)
    next
      case (PURCHASE obj)
      show ?thesis
      proof (cases "p_productId obj = p \<and> p_warehouseId obj = w \<and> 0 < available obj")
        case False
        with Some PURCHASE Cons.prems(1) have "consume_loop p w fs r d = Some d'"
          by (auto split: if_splits)
        then show ?thesis using sub Cons.prems(3) by (rule Cons.IH)
      next
        case True
        let ?take = "min (available obj) r"
        let ?d1 = "AList.update f (PURCHASE (obj\<lparr>p_remaining := Some (available obj - ?take)\<rparr>)) d"
        have P1: "P (r - ?take) ?d1"
          using Cons.prems(3) fF Some PURCHASE True by (intro step) auto
        have unfold: "consume_loop p w (f # fs) r d =
                        (if r - ?take = 0 then Some ?d1 else consume_loop p w fs (r - ?take) ?d1)"
          using Some PURCHASE True by (simp add: Let_def atomicWriteJson_def)
        show ?thesis
        proof (cases "r - ?take = 0")
          case z: True
          have "Some d' = consume_loop p w (f # fs) r d"
            using Cons.prems(1) by (rule sym)
          also note unfold
          also have "(if r - ?take = 0 then Some ?d1 else consume_loop p w fs (r - ?take) ?d1)
                       = Some ?d1"
            using z by (rule if_P)
          finally have "d' = ?d1" by (simp only: option.inject)
          with P1 show ?thesis by auto
        next
          case nz: False
          have "consume_loop p w fs (r - ?take) ?d1 =
                  (if r - ?take = 0 then Some ?d1 else consume_loop p w fs (r - ?take) ?d1)"
            using nz by (rule if_not_P [symmetric])
          also note unfold [symmetric]
          also note Cons.prems(1)
          finally show ?thesis using sub P1 by (rule Cons.IH)
        qed
      qed
    qed
  qed
qed

lemma consume_loop_keys:
  assumes "consume_loop p w fs r d = Some d'"
  shows "map fst d' = map fst d"
proof -
  have "\<exists>r'::rat. map fst d' = map fst d"
    by (rule consume_loop_invariant [where P = "\<lambda>r x. map fst x = map fst d" and F = UNIV, OF _ assms])
       (simp_all add: upd_keys)
  then show ?thesis by simp
qed

lemma consume_loop_replay:
  assumes "consume_loop p w fs r d = Some d'"
  shows "ledger_replay d' p' w' = ledger_replay d p' w'"
proof -
  have "\<exists>r'::rat. ledger_replay d' p' w' = ledger_replay d p' w'"
    by (rule consume_loop_invariant
          [where P = "\<lambda>r x. ledger_replay x p' w' = ledger_replay d p' w'" and F = UNIV, OF _ assms])
       (simp_all add: upd_replay)
  then show ?thesis by simp
qed

lemma consume_loop_other_files:
  assumes "consume_loop p w fs r d = Some d'" and "k \<notin> set fs"
  shows "map_of d' k = map_of d k"
proof -
  have "\<exists>r'::rat. map_of d' k = map_of d k"
    by (rule consume_loop_invariant
          [where P = "\<lambda>r x. map_of x k = map_of d k" and F = "set fs", OF _ assms(1)])
       (use assms(2) in \<open>auto simp: update_conv'\<close>)
  then show ?thesis by simp
qed

lemma consume_loop_other_pairs:
  assumes "consume_loop p w fs r d = Some d'" and "\<not> (p' = p \<and> w' = w)"
  shows "lots_available d' p' w' = lots_available d p' w'"
proof -
  have "\<exists>r'::rat. lots_available d' p' w' = lots_available d p' w'"
    by (rule consume_loop_invariant
          [where P = "\<lambda>r x. lots_available x p' w' = lots_available d p' w'" and F = UNIV,
           OF _ assms(1)])
       (use assms(2) in \<open>auto simp: upd_lots\<close>)
  then show ?thesis by simp
qed

lemma consume_loop_nonneg:
  assumes "consume_loop p w fs r d = Some d'" and "0 \<le> r" and "list_all nonneg_lot d"
  shows "list_all nonneg_lot d'"
proof -
  have "\<exists>r'::rat. 0 \<le> r' \<and> list_all nonneg_lot d'"
    by (rule consume_loop_invariant
          [where P = "\<lambda>r x. 0 \<le> r \<and> list_all nonneg_lot x" and F = UNIV, OF _ assms(1)])
       (use assms(2,3) in \<open>auto intro!: list_all_update simp: min_def\<close>)
  then show ?thesis by simp
qed

lemma consume_loop_defined:
  "set fs \<subseteq> set (map fst d) \<Longrightarrow> \<exists>d'. consume_loop p w fs r d = Some d'"
proof (induction fs arbitrary: r d)
  case Nil
  then show ?case by simp
next
  case (Cons f fs)
  from Cons.prems obtain t where t: "map_of d f = Some t"
    by (cases "map_of d f") (auto simp: map_of_eq_None_iff)
  have keys: "set fs \<subseteq> set (map fst (AList.update f v d))" for v
    using Cons.prems t by (simp add: upd_keys)
  have sub: "set fs \<subseteq> set (map fst d)" using Cons.prems by simp
  show ?case
    using t Cons.IH [OF sub] Cons.IH [OF keys]
    by (cases t) (auto simp: Let_def atomicWriteJson_def)
qed

lemma consume_loop_exhausts:
  "consume_loop p w fs r d = Some d' \<Longrightarrow> 0 \<le> r \<Longrightarrow> list_all nonneg_lot d \<Longrightarrow> distinct fs \<Longrightarrow>
     \<exists>r'. 0 \<le> r' \<and> lots_available d' p w = lots_available d p w - (r - r') \<and>
          (r' = 0 \<or> (\<forall>f\<in>set fs. \<forall>b. map_of d' f = Some (PURCHASE b) \<longrightarrow>
                         p_productId b = p \<and> p_warehouseId b = w \<longrightarrow> available b = 0))"
proof (induction fs arbitrary: r d)
  case Nil
  then show ?case by auto
next
  case (Cons f fs)
  from Cons.prems(4) have dist: "distinct fs" and fresh: "f \<notin> set fs" by auto
  show ?case
  proof (cases "map_of d f")
    case None
    with Cons.prems(1) show ?thesis by simp
  next
    case (Some t)
    have skip: ?thesis
      if run: "consume_loop p w fs r d = Some d'"
        and zero: "\<And>b. t = PURCHASE b \<Longrightarrow> p_productId b = p \<and> p_warehouseId b = w \<Longrightarrow> available b = 0"
    proof -
      from Cons.IH [OF run Cons.prems(2,3) dist] obtain r' where
        r': "0 \<le> r'" "lots_available d' p w = lots_available d p w - (r - r')"
          "r' = 0 \<or> (\<forall>g\<in>set fs. \<forall>b. map_of d' g = Some (PURCHASE b) \<longrightarrow>
                         p_productId b = p \<and> p_warehouseId b = w \<longrightarrow> available b = 0)"
        by blast
      have "map_of d' f = Some t"
        using consume_loop_other_files [OF run fresh] Some by simp
      with zero r' show ?thesis by (intro exI [of _ r']) auto
    qed
    show ?thesis
    proof (cases t)
      case (SALE obj)
      with Some Cons.prems(1) have run: "consume_loop p w fs r d = Some d'" by simp
      show ?thesis by (rule skip [OF run]) (simp add: SALE)
    next
      case (PURCHASE obj)
      have nn: "0 \<le> available obj"
        using map_of_list_all [OF Some Cons.prems(3)] PURCHASE by simp
      show ?thesis
      proof (cases "p_productId obj = p \<and> p_warehouseId obj = w \<and> 0 < available obj")
        case False
        with Some PURCHASE Cons.prems(1) have run: "consume_loop p w fs r d = Some d'"
          by (auto split: if_splits)
        show ?thesis by (rule skip [OF run]) (use False PURCHASE nn in auto)
      next
        case True
        let ?take = "min (available obj) r"
        let ?obj' = "obj\<lparr>p_remaining := Some (available obj - ?take)\<rparr>"
        let ?d1 = "AList.update f (PURCHASE ?obj') d"
        have unfold: "consume_loop p w (f # fs) r d =
                        (if r - ?take = 0 then Some ?d1 else consume_loop p w fs (r - ?take) ?d1)"
          using Some PURCHASE True by (simp add: Let_def atomicWriteJson_def)
        have lots1: "lots_available ?d1 p w = lots_available d p w - ?take"
          using Some PURCHASE True by (simp add: upd_lots)
        show ?thesis
        proof (cases "r - ?take = 0")
          case z: True
          have "Some d' = consume_loop p w (f # fs) r d"
            using Cons.prems(1) by (rule sym)
          also note unfold
          also have "(if r - ?take = 0 then Some ?d1 else consume_loop p w fs (r - ?take) ?d1)
                       = Some ?d1"
            using z by (rule if_P)
          finally have "d' = ?d1" by (simp only: option.inject)
          with lots1 z show ?thesis by (intro exI [of _ 0]) simp
        next
          case nz: False
          have run: "consume_loop p w fs (r - ?take) ?d1 = Some d'"
          proof -
            have "consume_loop p w fs (r - ?take) ?d1 =
                  (if r - ?take = 0 then Some ?d1 else consume_loop p w fs (r - ?take) ?d1)"
              using nz by (rule if_not_P [symmetric])
            also note unfold [symmetric]
            also note Cons.prems(1)
            finally show ?thesis .
          qed
          from nz Cons.prems(2) have less: "available obj < r" and take: "?take = available obj"
            by (auto simp: min_def split: if_splits)
          have r1: "0 \<le> r - ?take" using less take by simp
          have nn1: "list_all nonneg_lot ?d1"
            using Cons.prems(3) take by (intro list_all_update) simp_all
          from Cons.IH [OF run r1 nn1 dist] obtain r' where
            r': "0 \<le> r'" "lots_available d' p w = lots_available ?d1 p w - (r - ?take - r')"
              "r' = 0 \<or> (\<forall>g\<in>set fs. \<forall>b. map_of d' g = Some (PURCHASE b) \<longrightarrow>
                         p_productId b = p \<and> p_warehouseId b = w \<longrightarrow> available b = 0)"
            by blast
          have "map_of d' f = Some (PURCHASE ?obj')"
            using consume_loop_other_files [OF run fresh] by (simp add: update_conv')
          moreover have "available ?obj' = 0" using take by simp
          ultimately have head: "\<forall>b. map_of d' f = Some (PURCHASE b) \<longrightarrow> available b = 0"
            by auto
          from r'(2) lots1 have "lots_available d' p w = lots_available d p w - (r - r')"
            by simp
          with r'(1,3) head show ?thesis by (intro exI [of _ r']) auto
        qed
      qed
    qed
  qed
qed

lemma collect_batches_set:
  "b \<in> set (collect_batches d p w) \<longleftrightarrow>
     (\<exists>f. (f, PURCHASE b) \<in> set d) \<and> p_productId b = p \<and> p_warehouseId b = w"
  by (induction d p w rule: collect_batches.induct) auto

lemma sum_list_zero: "(\<And>x. x \<in> set xs \<Longrightarrow> g x = (0::rat)) \<Longrightarrow> sum_list (map g xs) = 0"
  by (induction xs) auto

lemma all_zero_lots:
  assumes "distinct (map fst d)"
    and "\<forall>f\<in>set (map fst d). \<forall>b. map_of d f = Some (PURCHASE b) \<longrightarrow>
           p_productId b = p \<and> p_warehouseId b = w \<longrightarrow> available b = 0"
  shows "lots_available d p w = 0"
  unfolding lots_available_def
proof (rule sum_list_zero)
  fix b assume "b \<in> set (collect_batches d p w)"
  then obtain f where f: "(f, PURCHASE b) \<in> set d"
    and m: "p_productId b = p \<and> p_warehouseId b = w"
    by (auto simp: collect_batches_set)
  from f assms(1) have "map_of d f = Some (PURCHASE b)" by simp
  moreover from f have "f \<in> set (map fst d)" by force
  ultimately show "available b = 0" using assms(2) m by blast
qed

lemma consume_loop_takes_all:
  assumes run: "consume_loop p w (sort (map fst d)) q d = Some d'"
    and dist: "distinct (map fst d)" and nn: "list_all nonneg_lot d"
    and q: "0 \<le> q" "q \<le> lots_available d p w"
  shows "lots_available d' p w = lots_available d p w - q"
proof -
  have "distinct (sort (map fst d))" using dist by simp
  from consume_loop_exhausts [OF run q(1) nn this] obtain r' where
    r': "0 \<le> r'" "lots_available d' p w = lots_available d p w - (q - r')"
      "r' = 0 \<or> (\<forall>f\<in>set (sort (map fst d)). \<forall>b. map_of d' f = Some (PURCHASE b) \<longrightarrow>
                     p_productId b = p \<and> p_warehouseId b = w \<longrightarrow> available b = 0)"
    by blast
  have keys: "map fst d' = map fst d" using run by (rule consume_loop_keys)
  have "r' = 0"
  proof (rule ccontr)
    assume "r' \<noteq> 0"
    with r'(3) have "\<forall>f\<in>set (map fst d'). \<forall>b. map_of d' f = Some (PURCHASE b) \<longrightarrow>
                     p_productId b = p \<and> p_warehouseId b = w \<longrightarrow> available b = 0"
      by (simp add: keys)
    with dist keys have "lots_available d' p w = 0" by (intro all_zero_lots) simp_all
    with r'(1,2) q(2) \<open>r' \<noteq> 0\<close> show False by simp
  qed
  with r'(2) show ?thesis by simp
qed

lemma lots_available_load:
  "sum_list (map available (loadPurchaseBatches d p w)) = lots_available d p w"
proof -
  have "sum_list (map available (loadPurchaseBatches d p w)) = lots_available (readdir d) p w"
    by (simp add: loadPurchaseBatches_def lots_available_def sum_list_sort_key)
  then show ?thesis by (simp add: lots_available_spec spec_total_quantity_readdir)
qed

lemma nonneg_batches:
  assumes "list_all nonneg_lot d"
  shows "list_all (\<lambda>b. 0 \<le> available b) (loadPurchaseBatches d p w)"
  unfolding list_all_iff loadPurchaseBatches_def
proof
  fix b assume "b \<in> set (sort_key p_timestamp (collect_batches (readdir d) p w))"
  then obtain f where "(f, PURCHASE b) \<in> set d"
    by (auto simp: collect_batches_set readdir_def)
  with assms have "nonneg_lot (f, PURCHASE b)" by (auto simp: list_all_iff)
  then show "0 \<le> available b" by simp
qed

lemma sum_list_nonneg_all:
  "list_all (\<lambda>b. 0 \<le> g b) xs \<Longrightarrow> (0::rat) \<le> sum_list (map g xs)"
  by (induction xs) auto

lemma fifo_loop_nonpos: "need \<le> 0 \<Longrightarrow> fst (fifo_loop bs need c) \<le> 0"
  by (induction bs arbitrary: c) (auto simp: Let_def min_def)

lemma computeCOGS_FIFO_throws_iff:
  assumes "list_all nonneg_lot d"
  shows "(\<exists>cogs. computeCOGS_FIFO d p w q = Inr cogs) \<longleftrightarrow> q \<le> 0 \<or> q \<le> lots_available d p w"
proof (cases "0 \<le> q")
  case True
  from fifo_loop_spec_walk [OF nonneg_batches [OF assms] True, of p w 0]
  have "0 < fst (fifo_loop (loadPurchaseBatches d p w) q 0) \<longleftrightarrow> lots_available d p w < q"
    by (simp add: lots_available_load)
  moreover have "0 \<le> lots_available d p w"
    using sum_list_nonneg_all [OF nonneg_batches [OF assms, of p w]]
    by (simp add: lots_available_load)
  ultimately show ?thesis
    using True by (auto simp: computeCOGS_FIFO_def split: prod.splits)
next
  case False
  then have "fst (fifo_loop (loadPurchaseBatches d p w) q 0) \<le> 0"
    by (intro fifo_loop_nonpos) simp
  with False show ?thesis
    by (auto simp: computeCOGS_FIFO_def split: prod.splits)
qed



lemma lookup_balance_purchase:
  "lookup_balance
     (bal(p \<mapsto> (case bal p of None \<Rightarrow> Map.empty | Some r \<Rightarrow> r)(w \<mapsto> v))) p' w' =
       (if p' = p \<and> w' = w then v else lookup_balance bal p' w')"
  by (cases "bal p") (simp_all add: lookup_balance_row lookup_balance_new_row)

lemma purchase_cases:
  "snd (purchase e req s) = s \<or>
   (\<exists>q t. pr_quantity req = Some q \<and> p_quantity t = q \<and> available t = q \<and>
      transactions (snd (purchase e req s)) = writeTransaction e (PURCHASE t) (transactions s) \<and>
      (\<forall>p' w'. lookup_balance (balances (snd (purchase e req s))) p' w' =
         (if p' = p_productId t \<and> w' = p_warehouseId t
          then lookup_balance (balances s) p' w' + q
          else lookup_balance (balances s) p' w')))"
proof (cases "fst (purchase e req s) = Status 400 Missing_fields
              \<or> fst (purchase e req s) = Status 400 Invalid_product")
  case True
  then show ?thesis
    by (auto simp: purchase_def Let_def split: if_splits)
next
  case False
  then have ok: "\<not> falsy_num (pr_quantity req)" "the (pr_productId req) \<in> products s"
    by (auto simp: purchase_def Let_def split: if_splits)
  then obtain q where q: "pr_quantity req = Some q"
    by (cases "pr_quantity req") (auto simp: falsy_num_def)
  let ?t = "\<lparr>p_id = tx_uuid e, p_productId = the (pr_productId req),
             p_warehouseId = warehouse_or_default (pr_warehouseId req),
             p_supplierId = the (pr_supplierId req), p_quantity = q,
             p_unitCost = the (pr_unitCost req), p_totalCost = q * the (pr_unitCost req),
             p_reference = or_null (pr_reference req), p_timestamp = tx_now e,
             p_remaining = Some q\<rparr>"
  have "transactions (snd (purchase e req s)) = writeTransaction e (PURCHASE ?t) (transactions s)"
    using False q by (auto simp: purchase_def Let_def split: if_splits)
  moreover have "\<forall>p' w'. lookup_balance (balances (snd (purchase e req s))) p' w' =
         (if p' = p_productId ?t \<and> w' = p_warehouseId ?t
          then lookup_balance (balances s) p' w' + q
          else lookup_balance (balances s) p' w')"
    using False q by (auto simp: purchase_def Let_def lookup_balance_purchase split: if_splits)
  moreover have "p_quantity ?t = q" "available ?t = q" by (simp_all add: available_def)
  ultimately show ?thesis using q by blast
qed

lemma ledger_replay_single:
  "ledger_replay [(k, PURCHASE t)] p w =
     (if p_productId t = p \<and> p_warehouseId t = w then p_quantity t else 0)"
  "ledger_replay [(k, SALE x)] p w =
     - (if s_productId x = p \<and> s_warehouseId x = w then s_quantity x else 0)"
  by simp_all

lemma lots_available_single:
  "lots_available [(k, PURCHASE t)] p w =
     (if p_productId t = p \<and> p_warehouseId t = w then available t else 0)"
  "lots_available [(k, SALE x)] p w = 0"
  by (simp_all add: lots_available_def)

lemma purchase_consistent:
  assumes c: "consistent s"
    and fresh: "fname (file_now e) (file_uuid e) \<notin> set (map fst (transactions s))"
    and pos: "case pr_quantity req of None \<Rightarrow> True | Some q \<Rightarrow> 0 < q"
  shows "consistent (snd (purchase e req s))"
  using purchase_cases [of e req s]
proof
  assume "snd (purchase e req s) = s"
  with c show ?thesis by simp
next
  assume "\<exists>q t. pr_quantity req = Some q \<and> p_quantity t = q \<and> available t = q \<and>
      transactions (snd (purchase e req s)) = writeTransaction e (PURCHASE t) (transactions s) \<and>
      (\<forall>p' w'. lookup_balance (balances (snd (purchase e req s))) p' w' =
         (if p' = p_productId t \<and> w' = p_warehouseId t
          then lookup_balance (balances s) p' w' + q
          else lookup_balance (balances s) p' w'))"
  then obtain q t where q: "pr_quantity req = Some q" and t: "p_quantity t = q" "available t = q"
    and dir: "transactions (snd (purchase e req s)) = transactions s @ [(fname (file_now e) (file_uuid e), PURCHASE t)]"
    and bal: "\<And>p' w'. lookup_balance (balances (snd (purchase e req s))) p' w' =
         (if p' = p_productId t \<and> w' = p_warehouseId t
          then lookup_balance (balances s) p' w' + q
          else lookup_balance (balances s) p' w')"
    by (auto simp: writeTransaction_def atomicWriteJson_def update_fresh [OF fresh])
  from pos q have qpos: "0 < q" by simp
  show ?thesis
    unfolding consistent_def dir
    using c qpos t fresh
    by (auto simp: consistent_def bal ledger_replay_append lots_available_append
          ledger_replay_single lots_available_single add_nonneg_nonneg
          intro: add_increasing2)
qed

lemma sale_check_facts:
  assumes "sale_check req s = Inr p"
  shows "ps_balances p = balances s"
    and "ps_avail p = lookup_balance (balances s) (ps_productId p) (ps_warehouseId p)"
    and "ps_quantity p \<le> ps_avail p"
    and "sr_quantity req = Some (ps_quantity p)"
  using assms
  by (auto simp: sale_check_def Let_def falsy_num_def split: if_splits option.splits)

lemma sale_cases:
  "snd (sale e req s) = s \<or>
   (\<exists>p cogs. sale_check req s = Inr p \<and> sale_cost p s = Inr cogs \<and>
      snd (sale e req s) = snd (sale_commit e p cogs s))"
  by (auto simp: sale_def split: sum.splits)

lemma sale_commit_consistent:
  assumes c: "consistent s"
    and p: "ps_balances p = balances s"
      "ps_avail p = lookup_balance (balances s) (ps_productId p) (ps_warehouseId p)"
      "ps_quantity p \<le> ps_avail p" "0 < ps_quantity p"
    and cost: "sale_cost p s = Inr cogs"
    and fresh: "fname (file_now e) (file_uuid e) \<notin> set (map fst (transactions s))"
  shows "consistent (snd (sale_commit e p cogs s))"
proof -
  let ?pid = "ps_productId p" and ?wid = "ps_warehouseId p" and ?q = "ps_quantity p"
  let ?k = "fname (file_now e) (file_uuid e)"
  let ?t = "\<lparr>s_id = tx_uuid e, s_productId = ?pid, s_warehouseId = ?wid, s_quantity = ?q,
             s_unitPrice = ps_unitPrice p, s_totalRevenue = ?q * ps_unitPrice p,
             s_cogs = cogs, s_timestamp = tx_now e\<rparr>"
  let ?d1 = "transactions s @ [(?k, SALE ?t)]"
  from c have c1: "\<And>p' w'. lookup_balance (balances s) p' w' = ledger_replay (transactions s) p' w'"
    and c2: "\<And>p' w'. 0 \<le> lookup_balance (balances s) p' w'"
    and c3: "\<And>p' w'. lookup_balance (balances s) p' w' \<le> lots_available (transactions s) p' w'"
    and c4: "list_all nonneg_lot (transactions s)"
    and c5: "distinct (map fst (transactions s))"
    unfolding consistent_def by blast+
  from p have "lookup_balance (balances s) ?pid ?wid \<noteq> 0" by simp
  then obtain row where row: "balances s ?pid = Some row"
    using lookup_balance_pos by blast
  define av where "av = ps_avail p"
  define B where "B = (balances s)(?pid \<mapsto> row(?wid \<mapsto> av - ?q))"
  have av: "av = lookup_balance (balances s) ?pid ?wid" "?q \<le> av"
    using p(2,3) by (simp_all add: av_def)
  have bal: "lookup_balance B p' w' =
               (if p' = ?pid \<and> w' = ?wid then av - ?q else lookup_balance (balances s) p' w')"
    for p' w'
    unfolding B_def using row by (rule lookup_balance_row)
  have d1: "writeTransaction e (SALE ?t) (transactions s) = ?d1"
    by (simp add: writeTransaction_def atomicWriteJson_def update_fresh [OF fresh])
  have nn1: "list_all nonneg_lot ?d1" using c4 by simp
  have dist1: "distinct (map fst ?d1)" using c5 fresh by simp
  have replay1: "ledger_replay ?d1 p' w' =
                   ledger_replay (transactions s) p' w' - (if p' = ?pid \<and> w' = ?wid then ?q else 0)"
    for p' w'
    by (auto simp: ledger_replay_append)
  have lots1: "lots_available ?d1 p' w' = lots_available (transactions s) p' w'" for p' w'
    by (simp add: lots_available_append lots_available_single)
  have good: "consistent (s\<lparr>transactions := d', balances := B\<rparr>)"
    if "map fst d' = map fst ?d1" and "list_all nonneg_lot d'"
      and "\<And>p' w'. ledger_replay d' p' w' = ledger_replay ?d1 p' w'"
      and "\<And>p' w'. lots_available ?d1 p' w' - (if p' = ?pid \<and> w' = ?wid then ?q else 0)
                       \<le> lots_available d' p' w'"
    for d'
    unfolding consistent_def
  proof (intro conjI allI)
    fix p' w'
    let ?s' = "s\<lparr>transactions := d', balances := B\<rparr>"
    show "lookup_balance (balances ?s') p' w' = ledger_replay (transactions ?s') p' w'"
    proof (cases "p' = ?pid \<and> w' = ?wid")
      case True
      then show ?thesis
        using that(3) [of ?pid ?wid] replay1 [of ?pid ?wid] c1 [of ?pid ?wid] av(1)
        by (simp add: bal)
    next
      case False
      then show ?thesis
        using that(3) [of p' w'] replay1 [of p' w'] c1 [of p' w']
        by (auto simp: bal)
    qed
    show "0 \<le> lookup_balance (balances ?s') p' w'"
      using c2 [of p' w'] av(2) by (simp add: bal)
    show "lookup_balance (balances ?s') p' w' \<le> lots_available (transactions ?s') p' w'"
    proof (cases "p' = ?pid \<and> w' = ?wid")
      case True
      then show ?thesis
        using that(4) [of ?pid ?wid] lots1 [of ?pid ?wid] c3 [of ?pid ?wid] av(1)
        by (simp add: bal)
    next
      case False
      then show ?thesis
        using that(4) [of p' w'] lots1 [of p' w'] c3 [of p' w']
        by (auto simp: bal)
    qed
  next
    show "list_all nonneg_lot (transactions (s\<lparr>transactions := d', balances := B\<rparr>))"
      using that(2) by simp
    show "distinct (map fst (transactions (s\<lparr>transactions := d', balances := B\<rparr>)))"
      using that(1) dist1 by simp
  qed
  show ?thesis
  proof (cases "ps_fifo p")
    case False
    have "snd (sale_commit e p cogs s) = s\<lparr>transactions := ?d1, balances := B\<rparr>"
      using False row p(1) by (simp add: sale_commit_def Let_def d1 B_def av_def)
    moreover have "consistent (s\<lparr>transactions := ?d1, balances := B\<rparr>)"
      using nn1 p(4) by (intro good) auto
    ultimately show ?thesis by simp
  next
    case True
    with cost obtain c where "computeCOGS_FIFO (transactions s) ?pid ?wid ?q = Inr c"
      by (auto simp: sale_cost_def split: sum.splits)
    with computeCOGS_FIFO_throws_iff [OF c4, of ?pid ?wid ?q] p(4)
    have enough: "?q \<le> lots_available ?d1 ?pid ?wid"
      by (auto simp: lots1)
    obtain d' where run: "consume_loop ?pid ?wid (sort (map fst ?d1)) ?q ?d1 = Some d'"
      using consume_loop_defined [of "sort (map fst ?d1)" ?d1 ?pid ?wid ?q] by auto
    have "snd (sale_commit e p cogs s) = s\<lparr>transactions := d', balances := B\<rparr>"
      using True row p(1) run by (simp add: sale_commit_def Let_def d1 B_def av_def)
    moreover have "consistent (s\<lparr>transactions := d', balances := B\<rparr>)"
    proof (rule good)
      show "map fst d' = map fst ?d1" using run by (rule consume_loop_keys)
      show "list_all nonneg_lot d'" using run _ nn1 by (rule consume_loop_nonneg) (use p(4) in simp)
      show "ledger_replay d' p' w' = ledger_replay ?d1 p' w'" for p' w'
        using run by (rule consume_loop_replay)
      show "lots_available ?d1 p' w' - (if p' = ?pid \<and> w' = ?wid then ?q else 0)
              \<le> lots_available d' p' w'" for p' w'
      proof (cases "p' = ?pid \<and> w' = ?wid")
        case True
        have "lots_available d' ?pid ?wid = lots_available ?d1 ?pid ?wid - ?q"
          using run dist1 nn1 _ enough by (rule consume_loop_takes_all) (use p(4) in simp)
        with True show ?thesis by simp
      next
        case False
        with consume_loop_other_pairs [OF run False] show ?thesis by auto
      qed
    qed
    ultimately show ?thesis by simp
  qed
qed

lemma sale_consistent:
  assumes c: "consistent s"
    and fresh: "fname (file_now e) (file_uuid e) \<notin> set (map fst (transactions s))"
    and pos: "case sr_quantity req of None \<Rightarrow> True | Some q \<Rightarrow> 0 < q"
  shows "consistent (snd (sale e req s))"
  using sale_cases [of e req s]
proof
  assume "snd (sale e req s) = s"
  with c show ?thesis by simp
next
  assume "\<exists>p cogs. sale_check req s = Inr p \<and> sale_cost p s = Inr cogs \<and>
      snd (sale e req s) = snd (sale_commit e p cogs s)"
  then obtain p cogs where check: "sale_check req s = Inr p" and cost: "sale_cost p s = Inr cogs"
    and eq: "snd (sale e req s) = snd (sale_commit e p cogs s)"
    by blast
  note f = sale_check_facts [OF check]
  from f(4) pos have "0 < ps_quantity p" by simp
  with c f(1,2,3) cost fresh show ?thesis
    unfolding eq by (intro sale_commit_consistent)
qed

subsection \<open>Sequences of requests with positive quantities\<close>


lemma pay_balances: "balances (snd (pay e req s)) = balances s"
  by (simp add: pay_def Let_def split: option.splits)

lemma consistent_init: "consistent init"
  by (simp add: consistent_def init_def lookup_balance_def lots_available_def)

lemma consistent_cong:
  "balances s' = balances s \<Longrightarrow> transactions s' = transactions s \<Longrightarrow>
     consistent s \<Longrightarrow> consistent s'"
  unfolding consistent_def by metis

lemma handle_consistent:
  assumes "consistent s"
    and "case request_env r of None \<Rightarrow> True
         | Some e \<Rightarrow> fname (file_now e) (file_uuid e) \<notin> set (map fst (transactions s))"
    and "case request_quantity r of None \<Rightarrow> True | Some q \<Rightarrow> 0 < q"
  shows "consistent (snd (handle r s))"
proof (cases r)
  case (Purchase e req)
  with assms show ?thesis by (simp add: purchase_consistent)
next
  case (Sale e req)
  with assms show ?thesis by (simp add: sale_consistent)
next
  case (Pay e req)
  have "consistent (snd (pay e req s))"
    using pay_balances pay_transactions assms(1) by (rule consistent_cong)
  with Pay show ?thesis by simp
next
  case (Products P)
  have "consistent (s\<lparr>products := P\<rparr>)"
    using _ _ assms(1) by (rule consistent_cong) simp_all
  with Products show ?thesis by simp
qed

lemma run_consistent:
  "consistent s \<Longrightarrow> fresh_names rs s \<Longrightarrow> positive_quantities rs \<Longrightarrow> consistent (run rs s)"
proof (induction rs arbitrary: s)
  case Nil
  then show ?case by simp
next
  case (Cons r rs)
  from Cons.prems have "consistent (snd (handle r s))"
    by (intro handle_consistent) (simp_all add: positive_quantities_def)
  moreover from Cons.prems have "fresh_names rs (snd (handle r s))" "positive_quantities rs"
    by (simp_all add: positive_quantities_def)
  ultimately show ?case by (simp add: Cons.IH)
qed

lemma run_lots_nonneg:
  assumes "fresh_names rs init" and "positive_quantities rs"
  shows "list_all (\<lambda>b. 0 \<le> available b) (loadPurchaseBatches (transactions (run rs init)) p w)"
proof -
  from run_consistent [OF consistent_init assms]
  have "list_all nonneg_lot (transactions (run rs init))"
    unfolding consistent_def by blast
  then show ?thesis by (rule nonneg_batches)
qed



subsection \<open>The scenario and the negative quantities, evaluated\<close>


lemma cogs_stocked: "computeCOGS_FIFO stocked_lots ''p1'' ''default'' 12 = Inr 28"
  by (simp add: computeCOGS_FIFO_def stocked_batches) 
     (simp add: stocked_lots_def available_def Let_def)

lemma check_fifo:
  "sale_check (sale_12 None) stocked =
     Inr \<lparr>ps_balances = balances stocked, ps_avail = 15, ps_productId = ''p1'',
          ps_warehouseId = ''default'', ps_quantity = 12, ps_unitPrice = 5, ps_fifo = True\<rparr>"
  by (simp add: sale_check_def sale_12_def handler_defs is_FIFO_def toUpperCase_char_def
        stocked_eq)

lemma sale_fifo_scenario:
  "sale sale_env (sale_12 None) stocked =
     (Ok_tx (SALE (sold_12 (Some 28))),
      stocked\<lparr>balances := [''p1'' \<mapsto> [''default'' \<mapsto> 3]], transactions := sold_lots\<rparr>)"
  unfolding sale_def check_fifo
  apply (simp add: sale_cost_def stocked_eq cogs_stocked)
  apply (simp add: sale_commit_def sale_env_def fname_S writeTransaction_def
           atomicWriteJson_def Let_def)
  apply (simp add: stocked_lots_def available_def atomicWriteJson_def Let_def sold_12_def sold_lots_def)
  done




lemma stocked_nested:
  "snd (handle purchase_B (snd (handle purchase_A (init\<lparr>products := {''p1''}\<rparr>)))) = stocked"
  by (simp add: stocked_def)



lemma run_scenario:
  "run scenario init = stocked\<lparr>balances := [''p1'' \<mapsto> [''default'' \<mapsto> 3]], transactions := sold_lots\<rparr>"
  by (simp add: scenario_def stocked_nested sale_fifo_scenario)





lemma one_lot_nested: "snd (handle purchase_B (init\<lparr>products := {''p1''}\<rparr>)) = one_lot"
  by (simp add: one_lot_def)

lemma sale_5_first: "sale sale_env sale_5 one_lot = (Ok_tx (SALE (sold_5 sale_env)), sold_out)"
  by (simp add: sale_def check_5 cost_5 commit_first sold_out_def)

lemma run_selling_out: "run selling_out init = sold_out"
  by (simp add: selling_out_def one_lot_nested sale_5_first)

lemma cogs_negative: "computeCOGS_FIFO (transactions sold_out) ''p1'' ''default'' (- 3) = Inr 0"
  by (simp add: sold_out_def emptied_lot_def computeCOGS_FIFO_def loadPurchaseBatches_def
        readdir_def available_def)

lemma sale_negative_after:
  "sale sale_env_2 sale_negative sold_out =
     (Ok_tx (SALE returned_3),
      sold_out\<lparr>balances := [''p1'' \<mapsto> [''default'' \<mapsto> 3]],
        transactions := [emptied_lot, (''1700000000011_c2d4.json'', SALE (sold_5 sale_env)),
                         (''1700000000013_77aa.json'', SALE returned_3)]\<rparr>)"
  by (simp add: sale_def sale_check_def sale_cost_def sale_commit_def sale_negative_def
        sale_env_2_def sold_out_def one_lot_eq emptied_lot_def handler_defs is_FIFO_def
        toUpperCase_char_def computeCOGS_FIFO_def loadPurchaseBatches_def readdir_def available_def
        fname_T returned_3_def)



subsection \<open>The scenario continued with a second product\<close>

lemma fname_X: "fname 1700000000021 ''5b60'' = ''1700000000021_5b60.json''"
  by (simp add: fname_def decimal.simps digit_def)


lemma run_append: "run (rs @ rs') s = run rs' (run rs s)"
  by (induction rs arbitrary: s) simp_all

lemma run_two_products:
  "run two_products init =
     \<lparr>products = {''p1'', ''p2''},
      balances = [''p1'' \<mapsto> [''default'' \<mapsto> 3], ''p2'' \<mapsto> [''default'' \<mapsto> 7]],
      payables = [''s1'' \<mapsto> \<lparr>amount = 103,
            invoices = [\<lparr>inv_id = ''id-A'', inv_amount = 20, inv_reference = None,
                        inv_timestamp = 1700000000000\<rparr>,
                       \<lparr>inv_id = ''id-B'', inv_amount = 20, inv_reference = None,
                        inv_timestamp = 1700000000005\<rparr>,
                       \<lparr>inv_id = ''id-X'', inv_amount = 63, inv_reference = None,
                        inv_timestamp = 1700000000020\<rparr>],
            payments = None\<rparr>],
      transactions = sold_lots @ [lot_X]\<rparr>"
  unfolding two_products_def run_append run_scenario
  by (simp add: stocked_eq purchase_X_def purchase_def handler_defs fname_X sold_lots_def
        lot_X_def)


lemma two_products_entries:
  "spec_entries (sold_lots @ [lot_X]) ''p1'' ''default'' =
     [\<lparr>p_id = ''id-A'', p_productId = ''p1'', p_warehouseId = ''default'',
        p_supplierId = ''s1'', p_quantity = 10, p_unitCost = 2, p_totalCost = 20,
        p_reference = None, p_timestamp = 1700000000000, p_remaining = Some 0\<rparr>,
      \<lparr>p_id = ''id-B'', p_productId = ''p1'', p_warehouseId = ''default'',
        p_supplierId = ''s1'', p_quantity = 5, p_unitCost = 4, p_totalCost = 20,
        p_reference = None, p_timestamp = 1700000000005, p_remaining = Some 3\<rparr>]"
  by (simp add: spec_entries_def sold_lots_def lot_X_def)

lemma two_products_totals:
  "spec_total_quantity (sold_lots @ [lot_X]) ''p1'' ''default'' = 3"
  "spec_total_cost (sold_lots @ [lot_X]) ''p1'' ''default'' = 12"
  by (simp_all add: spec_total_quantity_def spec_total_cost_def sold_lots_def lot_X_def
        remaining_or_quantity_def)

lemma two_products_exact:
  "exact_lots (spec_entries (transactions (run two_products init)) ''p1'' ''default'')"
  by (simp add: run_two_products two_products_entries)
     (simp add: exact_lots_def remaining_or_quantity_def isInteger_def MAX_SAFE_INTEGER_def)

text \<open>
  The scenario of the specification, through the theorem: after the two purchases the
  FIFO cost of 12 units is \<open>10 * 2 + 2 * 4 = 28\<close>, by the code and by the
  specification's walk. After the sale and the purchase of the other product, lot A
  holds 0 of its 10 units and lot B 3 of its 5: 2 units cost \<open>2 * 4 = 8\<close>, and 4 units are
  more than the pair has, whatever the other product's lot holds.
\<close>

theorem computeCOGS_FIFO_spec_scenario:
  "distinct (map fst (transactions (run stocking init)))
   \<and> exact_lots (spec_entries (transactions (run stocking init)) ''p1'' ''default'')
   \<and> computeCOGS_FIFO (transactions (run stocking init)) ''p1'' ''default'' 12 = Inr 28
   \<and> spec_fifo (transactions (run stocking init)) ''p1'' ''default'' 12 = Inr 28
   \<and> distinct (map fst (transactions (run two_products init)))
   \<and> exact_lots (spec_entries (transactions (run two_products init)) ''p1'' ''default'')
   \<and> computeCOGS_FIFO (transactions (run two_products init)) ''p1'' ''default'' 2 = Inr 8
   \<and> computeCOGS_FIFO (transactions (run two_products init)) ''p1'' ''default'' 4
       = Inl Insufficient_stock_for_FIFO"
proof -
  let ?d = "transactions (run stocking init)" and ?d' = "transactions (run two_products init)"
  have d: "?d = stocked_lots" by (simp add: stocked_run [symmetric] stocked_eq)
  have names: "distinct (map fst ?d)"
    by (simp add: d stocked_lots_def)
  have lots: "exact_lots (spec_entries ?d ''p1'' ''default'')"
    by (simp add: d stocked_entries)
       (simp add: stocked_lots_def exact_lots_def remaining_or_quantity_def isInteger_def
          MAX_SAFE_INTEGER_def)
  have n: "isInteger 12" "(12 :: rat) \<le> MAX_SAFE_INTEGER" "isInteger 2"
    "(2 :: rat) \<le> MAX_SAFE_INTEGER" "isInteger 4" "(4 :: rat) \<le> MAX_SAFE_INTEGER"
    by (simp_all add: isInteger_def MAX_SAFE_INTEGER_def)
  have walk: "spec_fifo ?d ''p1'' ''default'' 12 = Inr 28"
    by (simp add: d spec_fifo_def stocked_entries)
       (simp add: stocked_lots_def spec_total_quantity_def remaining_or_quantity_def Let_def)
  have names': "distinct (map fst ?d')"
    by (simp add: run_two_products sold_lots_def lot_X_def)
  have walk': "spec_fifo ?d' ''p1'' ''default'' 2 = Inr 8"
    "spec_fifo ?d' ''p1'' ''default'' 4 = Inl Insufficient_stock_for_FIFO"
    by (simp_all add: run_two_products spec_fifo_def two_products_entries two_products_totals
          remaining_or_quantity_def Let_def)
  from computeCOGS_FIFO_spec [OF names lots n(1) _ n(2)]
    computeCOGS_FIFO_spec [OF names' two_products_exact n(3) _ n(4)]
    computeCOGS_FIFO_spec [OF names' two_products_exact n(5) _ n(6)]
    names lots walk names' two_products_exact walk'
  show ?thesis by simp
qed

text \<open>
  C1, as stated, fails for a quantity the validation accepts. After the one lot of 5
  units at cost 4 is sold out, \<^verbatim>\<open>computeCOGS_FIFO\<close> costs \<open>-3\<close> units at 0 (it skips the
  emptied lot), and the sale of \<open>-3\<close> units is recorded with that cost; the walk of the
  specification takes \<open>min 0 (-3) = -3\<close> units from the lot, at cost \<open>-12\<close>.
\<close>

theorem negative_quantity_is_costed_at_zero:
  "run selling_out init = sold_out
   \<and> distinct (map fst (transactions sold_out))
   \<and> exact_lots (spec_entries (transactions sold_out) ''p1'' ''default'')
   \<and> isInteger (- 3)
   \<and> computeCOGS_FIFO (transactions sold_out) ''p1'' ''default'' (- 3) = Inr 0
   \<and> spec_fifo (transactions sold_out) ''p1'' ''default'' (- 3) = Inr (- 12)
   \<and> fst (sale sale_env_2 sale_negative sold_out) = Ok_tx (SALE returned_3)
   \<and> s_cogs returned_3 = Some 0"
  by (simp add: run_selling_out cogs_negative sale_negative_after)
     (simp add: sold_out_def emptied_lot_def spec_fifo_def spec_entries_def exact_lots_def
        isInteger_def MAX_SAFE_INTEGER_def spec_total_quantity_def remaining_or_quantity_def
        returned_3_def Let_def)



end
